theory Spec2Isabelle
  imports Complex_Main "HOL-Library.Word" "HOL-Library.AList"
begin

section \<open>Secret scrubbing (package logger, Scrubber)\<close>

text \<open>
  Values of Go's \<open>interface{}\<close> as the scrubber's type switch sees them: \<open>nil\<close>, a
  string, a \<open>[]interface{}\<close>, a \<open>map[string]interface{}\<close> (its entries, one per key),
  and every other dynamic type, which the \<open>default\<close> branch returns as it is: booleans
  and numbers, and also containers of another static type, of which \<open>[]string\<close> and
  \<open>map[string]string\<close> are kept here.
\<close>

datatype "value" =
    VNil
  | VStr string
  | VList "value list"
  | VMap "(string \<times> value) list"
  | VBool bool
  | VNum int
  | VStrList "string list"
  | VStrMap "(string \<times> string) list"

definition REDACTED :: string where
  "REDACTED = ''[REDACTED]''"

definition SensitiveKeys :: "string set" where
  "SensitiveKeys = set [
     ''password'', ''passwd'', ''pwd'', ''secret'', ''api_key'', ''apikey'', ''api-key'',
     ''token'', ''access_token'', ''accesstoken'', ''refresh_token'', ''auth'',
     ''authorization'', ''bearer'', ''credential'', ''credentials'', ''private_key'',
     ''privatekey'', ''private-key'', ''secret_key'', ''secretkey'', ''secret-key'',
     ''session_id'', ''sessionid'', ''session-id'', ''session'', ''cookie'', ''x-api-key'',
     ''x-auth-token'', ''x-access-token'']"

text \<open>
  \<open>strings.ToLower\<close> on ASCII text: the letters A to Z are mapped to a to z, every other
  byte is kept. (Beyond ASCII the library applies the Unicode case mapping; no statement
  below depends on how a key is lowered, only on the lowered key.)
\<close>

definition lower_char :: "char \<Rightarrow> char" where
  "lower_char c =
     (case map_of (zip ''ABCDEFGHIJKLMNOPQRSTUVWXYZ'' ''abcdefghijklmnopqrstuvwxyz'') c of
        Some l \<Rightarrow> l
      | None \<Rightarrow> c)"

definition ToLower :: "string \<Rightarrow> string" where
  "ToLower s = map lower_char s"

text \<open>
  A compiled \<open>*regexp.Regexp\<close> is used by the scrubber through one method only,
  \<open>ReplaceAllString(src, repl)\<close>; a pattern is modelled as that method.
\<close>

type_synonym regexp = "string \<Rightarrow> string \<Rightarrow> string"

record ScrubbingConfig =
  Enabled :: bool
  Patterns :: "string list"
  CustomRegexps :: "regexp list"
  Allowlist :: "string list"

record Scrubber =
  enabled :: bool
  patterns :: "regexp list"
  allowlist :: "string set"

definition defaultPatterns :: "string list" where
  "defaultPatterns = [''apiKey'', ''password'', ''token'', ''creditCard'', ''ssn'', ''awsKey'',
     ''privateKey'', ''jwt'']"

text \<open>
  \<open>NewScrubber\<close>. The table \<open>scrubPatterns\<close> of compiled built-in expressions is the
  argument \<open>table\<close>; a name that the table does not have is skipped. A \<open>nil\<close> config
  stands for \<open>Enabled: true\<close> and nothing else.
\<close>

fun loadPatterns :: "(string \<rightharpoonup> regexp) \<Rightarrow> string list \<Rightarrow> regexp list" where
  "loadPatterns table [] = []"
| "loadPatterns table (name # names) =
     (case table name of
        Some p \<Rightarrow> p # loadPatterns table names
      | None \<Rightarrow> loadPatterns table names)"

definition NewScrubber :: "(string \<rightharpoonup> regexp) \<Rightarrow> ScrubbingConfig option \<Rightarrow> Scrubber" where
  "NewScrubber table config =
     (let c = (case config of
                 None \<Rightarrow> \<lparr>Enabled = True, Patterns = [], CustomRegexps = [], Allowlist = []\<rparr>
               | Some c \<Rightarrow> c);
          patternNames = (if length (Patterns c) = 0 then defaultPatterns else Patterns c)
      in \<lparr>enabled = Enabled c,
          patterns = loadPatterns table patternNames @ CustomRegexps c,
          allowlist = set (map ToLower (Allowlist c))\<rparr>)"

definition AddPattern :: "Scrubber \<Rightarrow> regexp \<Rightarrow> Scrubber" where
  "AddPattern s pattern = s\<lparr>patterns := patterns s @ [pattern]\<rparr>"

definition AddToAllowlist :: "Scrubber \<Rightarrow> string \<Rightarrow> Scrubber" where
  "AddToAllowlist s key = s\<lparr>allowlist := insert (ToLower key) (allowlist s)\<rparr>"

definition SetEnabled :: "Scrubber \<Rightarrow> bool \<Rightarrow> Scrubber" where
  "SetEnabled s b = s\<lparr>enabled := b\<rparr>"

text \<open>The loop of \<open>scrubString\<close> and \<open>ScrubString\<close>: each pattern in list order, once.\<close>

fun applyPatterns :: "regexp list \<Rightarrow> string \<Rightarrow> string" where
  "applyPatterns [] result = result"
| "applyPatterns (p # ps) result = applyPatterns ps (p result REDACTED)"

definition scrubString :: "Scrubber \<Rightarrow> string \<Rightarrow> string" where
  "scrubString s v = applyPatterns (patterns s) v"


definition isSensitiveKey :: "string \<Rightarrow> bool" where
  "isSensitiveKey key = (ToLower key \<in> SensitiveKeys)"

text \<open>
  \<open>scrubValue\<close>: the allowlist check, the sensitive-key check, then the type switch. The
  two loops of the switch are the functions \<open>scrubItems\<close> (a slice, no key context) and
  \<open>scrubEntries\<close> (a map, each value with its own key).
\<close>

fun scrubValue :: "Scrubber \<Rightarrow> value \<Rightarrow> string \<Rightarrow> value"
  and scrubItems :: "Scrubber \<Rightarrow> value list \<Rightarrow> value list"
  and scrubEntries :: "Scrubber \<Rightarrow> (string \<times> value) list \<Rightarrow> (string \<times> value) list"
where
  "scrubValue s v key =
     (if key \<noteq> [] \<and> ToLower key \<in> allowlist s then v
      else if key \<noteq> [] \<and> isSensitiveKey key then VStr REDACTED
      else (case v of
              VNil \<Rightarrow> VNil
            | VStr x \<Rightarrow> VStr (scrubString s x)
            | VList xs \<Rightarrow> VList (scrubItems s xs)
            | VMap m \<Rightarrow> VMap (scrubEntries s m)
            | _ \<Rightarrow> v))"
| "scrubItems s [] = []"
| "scrubItems s (item # items) = scrubValue s item [] # scrubItems s items"
| "scrubEntries s [] = []"
| "scrubEntries s ((k, val) # m) = (k, scrubValue s val k) # scrubEntries s m"

definition Scrub :: "Scrubber \<Rightarrow> value \<Rightarrow> value" where
  "Scrub s v = (if \<not> enabled s then v else scrubValue s v [])"

text \<open>
  Reading a nested value: a path goes down through the entries of a
  \<open>map[string]interface{}\<close> by key and through the elements of a \<open>[]interface{}\<close> by
  index; \<open>sub v path\<close> is the value found there, if there is one.
\<close>

datatype step = Key string | Index nat

fun sub :: "value \<Rightarrow> step list \<Rightarrow> value option" where
  "sub v [] = Some v"
| "sub (VMap m) (Key k # path) = (case map_of m k of None \<Rightarrow> None | Some x \<Rightarrow> sub x path)"
| "sub (VList xs) (Index i # path) = (if i < length xs then sub (xs ! i) path else None)"
| "sub v (st # path) = None"

text \<open>
  A key under which \<open>scrubValue\<close> goes on to the type switch: it passes neither the
  allowlist check nor the sensitive-key check.
\<close>

definition plain_key :: "Scrubber \<Rightarrow> string \<Rightarrow> bool" where
  "plain_key s k =
     (\<not> (k \<noteq> [] \<and> ToLower k \<in> allowlist s) \<and> \<not> (k \<noteq> [] \<and> isSensitiveKey k))"

fun plain_path :: "Scrubber \<Rightarrow> step list \<Rightarrow> bool" where
  "plain_path s [] = True"
| "plain_path s (Key k # path) = (plain_key s k \<and> plain_path s path)"
| "plain_path s (Index i # path) = plain_path s path"

subsection \<open>Two of the built-in expressions\<close>

text \<open>
  The expressions \<open>ssn\<close> and \<open>awsKey\<close> of the table \<open>scrubPatterns\<close> use literals,
  character classes, alternation, optional parts, counted repetition and the ASCII word
  boundary. \<open>rmatch\<close> is a backtracking matcher for that fragment in the order of
  preference of Go's \<open>regexp\<close> (leftmost match, first alternative first, an optional part
  taken before it is skipped); its continuation receives the last character consumed and
  the rest of the input.
\<close>

datatype re =
    Eps
  | Cls "char \<Rightarrow> bool"
  | Seq re re
  | Alt re re
  | WordB

definition is_digit :: "char \<Rightarrow> bool" where
  "is_digit c = (c \<in> set ''0123456789'')"

definition is_upper :: "char \<Rightarrow> bool" where
  "is_upper c = (c \<in> set ''ABCDEFGHIJKLMNOPQRSTUVWXYZ'')"

definition is_lower :: "char \<Rightarrow> bool" where
  "is_lower c = (c \<in> set ''abcdefghijklmnopqrstuvwxyz'')"

text \<open>\<open>\s\<close> is tab, line feed, form feed, carriage return and space; \<open>\w\<close> is \<open>[0-9A-Za-z_]\<close>.\<close>

definition is_space :: "char \<Rightarrow> bool" where
  "is_space c = (c \<in> set [CHR 0x09, CHR 0x0A, CHR 0x0C, CHR 0x0D, CHR '' ''])"

definition is_word :: "char \<Rightarrow> bool" where
  "is_word c = (is_digit c \<or> is_upper c \<or> is_lower c \<or> c = CHR ''_'')"

definition is_word_opt :: "char option \<Rightarrow> bool" where
  "is_word_opt x = (case x of None \<Rightarrow> False | Some c \<Rightarrow> is_word c)"

definition head_opt :: "string \<Rightarrow> char option" where
  "head_opt s = (case s of [] \<Rightarrow> None | c # _ \<Rightarrow> Some c)"

fun rmatch :: "re \<Rightarrow> (char option \<Rightarrow> string \<Rightarrow> (char option \<times> string) option)
    \<Rightarrow> char option \<Rightarrow> string \<Rightarrow> (char option \<times> string) option" where
  "rmatch Eps k prev s = k prev s"
| "rmatch (Cls P) k prev s =
     (case s of [] \<Rightarrow> None | c # cs \<Rightarrow> if P c then k (Some c) cs else None)"
| "rmatch (Seq a b) k prev s = rmatch a (\<lambda>p r. rmatch b k p r) prev s"
| "rmatch (Alt a b) k prev s =
     (case rmatch a k prev s of Some m \<Rightarrow> Some m | None \<Rightarrow> rmatch b k prev s)"
| "rmatch WordB k prev s =
     (if is_word_opt prev \<noteq> is_word_opt (head_opt s) then k prev s else None)"

fun Lit :: "string \<Rightarrow> re" where
  "Lit [] = Eps"
| "Lit (c # cs) = Seq (Cls (\<lambda>x. x = c)) (Lit cs)"

fun times :: "nat \<Rightarrow> re \<Rightarrow> re" where
  "times 0 a = Eps"
| "times (Suc n) a = Seq a (times n a)"

definition opt :: "re \<Rightarrow> re" where
  "opt a = Alt a Eps"

fun seqs :: "re list \<Rightarrow> re" where
  "seqs [] = Eps"
| "seqs (a # as) = Seq a (seqs as)"

text \<open>
  \<open>ReplaceAllString\<close> for an expression that matches no empty string: scan from the left,
  replace a match where one starts and go on behind it, else keep the character. (The
  replacement \<open>[REDACTED]\<close> has no \<open>$\<close>, so nothing is expanded in it.)
\<close>

function replaceAll :: "re \<Rightarrow> char option \<Rightarrow> string \<Rightarrow> string \<Rightarrow> string" where
  "replaceAll r prev [] repl = []"
| "replaceAll r prev (c # cs) repl =
     (case rmatch r (\<lambda>p rest. Some (p, rest)) prev (c # cs) of
        None \<Rightarrow> c # replaceAll r (Some c) cs repl
      | Some (p, rest) \<Rightarrow>
          if length rest < length (c # cs) then repl @ replaceAll r p rest repl
          else c # replaceAll r (Some c) cs repl)"
  by pat_completeness auto
termination
  by (relation "measure (\<lambda>(r, prev, src, repl). length src)") auto

definition ReplaceAllString :: "re \<Rightarrow> regexp" where
  "ReplaceAllString r src repl = replaceAll r None src repl"








text \<open>\<^verbatim>\<open>\b\d{3}[-\s]?\d{2}[-\s]?\d{4}\b\<close>\<close>

definition ssn_re :: re where
  "ssn_re = seqs [WordB, times 3 (Cls is_digit),
     opt (Cls (\<lambda>c. c = CHR ''-'' \<or> is_space c)), times 2 (Cls is_digit),
     opt (Cls (\<lambda>c. c = CHR ''-'' \<or> is_space c)), times 4 (Cls is_digit), WordB]"

text \<open>\<^verbatim>\<open>(?:AKIA|ABIA|ACCA)[A-Z0-9]{16}\<close>\<close>

definition awsKey_re :: re where
  "awsKey_re = seqs [Alt (Lit ''AKIA'') (Alt (Lit ''ABIA'') (Lit ''ACCA'')),
     times 16 (Cls (\<lambda>c. is_upper c \<or> is_digit c))]"

text \<open>The entries \<open>ssn\<close> and \<open>awsKey\<close> of \<open>scrubPatterns\<close>; no other name is looked up in it below.\<close>

definition scrubPatterns_ssn_awsKey :: "string \<rightharpoonup> regexp" where
  "scrubPatterns_ssn_awsKey =
     [''ssn'' \<mapsto> ReplaceAllString ssn_re, ''awsKey'' \<mapsto> ReplaceAllString awsKey_re]"

section \<open>Log entries and the Observe destination (package logger)\<close>

text \<open>\<open>type Level int\<close> with the constants of the \<open>iota\<close> block.\<close>

type_synonym Level = int

definition LevelTrace :: Level where "LevelTrace = 0"
definition LevelDebug :: Level where "LevelDebug = 1"
definition LevelInfo :: Level where "LevelInfo = 2"
definition LevelWarn :: Level where "LevelWarn = 3"
definition LevelError :: Level where "LevelError = 4"
definition LevelFatal :: Level where "LevelFatal = 5"
definition LevelAudit :: Level where "LevelAudit = 6"

definition levelNames :: "Level \<rightharpoonup> string" where
  "levelNames = map_of [
     (LevelTrace, ''trace''), (LevelDebug, ''debug''), (LevelInfo, ''info''),
     (LevelWarn, ''warn''), (LevelError, ''error''), (LevelFatal, ''fatal''),
     (LevelAudit, ''audit'')]"

record Source =
  File :: string
  Line :: int
  Function :: string

text \<open>
  \<open>Entry\<close>. A \<open>time.Time\<close> is the number of nanoseconds since the Unix epoch; a Go map or
  pointer that may be \<open>nil\<close> is an option.
\<close>

record Entry =
  Level :: Level
  Message :: string
  Timestamp :: int
  LoggerName :: string
  Context :: "(string \<times> value) list option"
  Tags :: "(string \<times> string) list option"
  Source :: "Source option"
  TraceID :: string
  SpanID :: string
  SessionID :: string
  Environment :: string
  Release :: string
  SDKName :: string
  SDKVersion :: string

definition UnixMilli :: "int \<Rightarrow> int" where
  "UnixMilli t = t div 1000000"

text \<open>
  What \<open>json.Marshal\<close> writes for a value held in a \<open>map[string]interface{}\<close>: \<open>null\<close>
  for a nil map or nil pointer; a \<open>*Source\<close> by its struct tags, all three \<open>omitempty\<close>.
\<close>

definition levelName :: "Level \<Rightarrow> string" where
  "levelName l = (case levelNames l of None \<Rightarrow> [] | Some n \<Rightarrow> n)"

definition contextJSON :: "(string \<times> value) list option \<Rightarrow> value" where
  "contextJSON c = (case c of None \<Rightarrow> VNil | Some m \<Rightarrow> VMap m)"

definition tagsJSON :: "(string \<times> string) list option \<Rightarrow> value" where
  "tagsJSON c = (case c of None \<Rightarrow> VNil | Some m \<Rightarrow> VMap (map (\<lambda>(k, v). (k, VStr v)) m))"

definition sourceJSON :: "Source option \<Rightarrow> value" where
  "sourceJSON c =
     (case c of
        None \<Rightarrow> VNil
      | Some src \<Rightarrow> VMap (
          (if File src = [] then [] else [(''file'', VStr (File src))]) @
          (if Line src = 0 then [] else [(''line'', VNum (Line src))]) @
          (if Function src = [] then [] else [(''function'', VStr (Function src))])))"

text \<open>\<open>Entry.ToMap\<close>, as the JSON object that the map is marshalled to.\<close>

definition ToMap :: "Entry \<Rightarrow> (string \<times> value) list" where
  "ToMap e = [
     (''level'', VStr (levelName (Level e))),
     (''message'', VStr (Message e)),
     (''timestamp'', VNum (UnixMilli (Timestamp e))),
     (''loggerName'', VStr (LoggerName e)),
     (''context'', contextJSON (Context e)),
     (''tags'', tagsJSON (Tags e)),
     (''source'', sourceJSON (Source e)),
     (''traceId'', VStr (TraceID e)),
     (''spanId'', VStr (SpanID e)),
     (''sessionId'', VStr (SessionID e)),
     (''environment'', VStr (Environment e)),
     (''release'', VStr (Release e)),
     (''sdkName'', VStr (SDKName e)),
     (''sdkVersion'', VStr (SDKVersion e))]"

text \<open>The request body of \<open>ObserveDestination.sendBatch\<close>: \<open>{"logs": logs}\<close>.\<close>

definition logsPayload :: "Entry list \<Rightarrow> value" where
  "logsPayload batch = VMap [(''logs'', VList (map (\<lambda>entry. VMap (ToMap entry)) batch))]"

text \<open>\<open>Logger.shouldLog\<close>.\<close>

definition shouldLog :: "Level \<Rightarrow> Level \<Rightarrow> bool" where
  "shouldLog minLevel level = (if level = LevelAudit then True else level \<ge> minLevel)"

record ObserveConfig =
  ObserveEnabled :: bool
  BatchSize :: int
  FlushInterval :: "64 word"
  Sampling :: "Level \<rightharpoonup> real"

definition defaultSampling :: "Level \<rightharpoonup> real" where
  "defaultSampling = map_of [
     (LevelTrace, 0.01), (LevelDebug, 0.1), (LevelInfo, 0.5), (LevelWarn, 1.0),
     (LevelError, 1.0), (LevelFatal, 1.0), (LevelAudit, 1.0)]"

text \<open>
  \<open>ObserveDestination\<close>. The buffered channel \<open>queue\<close> is its content, oldest first, with
  its capacity; \<open>done_closed\<close> says that the channel \<open>done\<close> has been closed. The local
  variable \<open>batch\<close> of the worker goroutine, whether that goroutine has returned
  (\<open>wg.Done\<close>), and the batches it has handed to \<open>sendBatch\<close> so far are part of the
  state.
\<close>

record ObserveDestination =
  dsn :: string
  endpoint :: string
  config :: ObserveConfig
  sampling :: "Level \<rightharpoonup> real"
  queue :: "Entry list"
  queue_cap :: nat
  done_closed :: bool
  batch :: "Entry list"
  worker_exited :: bool
  sent :: "Entry list list"

text \<open>\<open>url.Parse\<close> is the argument \<open>urlParse\<close>: scheme and host, or \<open>None\<close> for an error.\<close>

definition parseEndpoint :: "(string \<Rightarrow> (string \<times> string) option) \<Rightarrow> string \<Rightarrow> string" where
  "parseEndpoint urlParse d =
     (case urlParse d of
        None \<Rightarrow> ''https://statly.live/api/v1/logs/ingest''
      | Some (scheme, host) \<Rightarrow> scheme @ ''://'' @ host @ ''/api/v1/logs/ingest'')"

definition NewObserveDestination ::
  "(string \<Rightarrow> (string \<times> string) option) \<Rightarrow> string \<Rightarrow> ObserveConfig option \<Rightarrow> ObserveDestination" where
  "NewObserveDestination urlParse d cfg =
     (let c = (case cfg of
                 None \<Rightarrow> \<lparr>ObserveEnabled = True, BatchSize = 50, FlushInterval = 5000000000,
                           Sampling = Map.empty\<rparr>
               | Some c \<Rightarrow> c)
      in \<lparr>dsn = d, endpoint = parseEndpoint urlParse d, config = c,
          sampling = defaultSampling ++ Sampling c,
          queue = [], queue_cap = 1000, done_closed = False,
          batch = [], worker_exited = False, sent = []\<rparr>)"

text \<open>A map read \<open>o.sampling[level]\<close>: the zero value for a level that the map lacks.\<close>

definition rate_of :: "(Level \<rightharpoonup> real) \<Rightarrow> Level \<Rightarrow> real" where
  "rate_of m l = (case m l of None \<Rightarrow> 0 | Some r \<Rightarrow> r)"

text \<open>The \<open>select\<close> of \<open>Write\<close>: send if the buffer has room, else the \<open>default\<close> case.\<close>

definition observe_enqueue :: "ObserveDestination \<Rightarrow> Entry \<Rightarrow> ObserveDestination" where
  "observe_enqueue d entry =
     (if length (queue d) < queue_cap d then d\<lparr>queue := queue d @ [entry]\<rparr> else d)"

text \<open>\<open>ObserveDestination.Write\<close>; \<open>draw\<close> is the value that \<open>rand.Float64()\<close> returns.\<close>

definition Write :: "ObserveDestination \<Rightarrow> Entry \<Rightarrow> real \<Rightarrow> ObserveDestination" where
  "Write d entry draw =
     (if \<not> ObserveEnabled (config d) then d
      else if Level entry \<noteq> LevelAudit \<and> draw > rate_of (sampling d) (Level entry) then d
      else observe_enqueue d entry)"

fun Write_all :: "ObserveDestination \<Rightarrow> (Entry \<times> real) list \<Rightarrow> ObserveDestination" where
  "Write_all d [] = d"
| "Write_all d ((entry, draw) # rest) = Write_all (Write d entry draw) rest"

text \<open>
  The worker goroutine. Its \<open>select\<close> takes one of the cases that are ready; which one is
  the scheduler's choice, given here as the list of cases taken. A case that is not
  ready (an empty queue, an open \<open>done\<close>) cannot be taken and leaves the state as it is, and
  so does every case after the goroutine has returned.
\<close>

datatype select_case = RecvQueue | TimerC | DoneClosed

text \<open>The inner loop of the \<open>done\<close> case: receive until the queue is empty.\<close>

fun observe_drain :: "Entry list \<Rightarrow> Entry list \<Rightarrow> Entry list" where
  "observe_drain [] b = b"
| "observe_drain (entry # q) b = observe_drain q (b @ [entry])"

definition observe_worker_step :: "select_case \<Rightarrow> ObserveDestination \<Rightarrow> ObserveDestination" where
  "observe_worker_step c d =
     (if worker_exited d then d
      else case c of
        RecvQueue \<Rightarrow>
          (case queue d of
             [] \<Rightarrow> d
           | entry # q \<Rightarrow>
               let b = batch d @ [entry]
               in if int (length b) \<ge> BatchSize (config d)
                  then d\<lparr>queue := q, batch := [], sent := sent d @ [b]\<rparr>
                  else d\<lparr>queue := q, batch := b\<rparr>)
      | TimerC \<Rightarrow>
          if length (batch d) > 0 then d\<lparr>batch := [], sent := sent d @ [batch d]\<rparr> else d
      | DoneClosed \<Rightarrow>
          if \<not> done_closed d then d
          else let b = observe_drain (queue d) (batch d)
               in d\<lparr>queue := [], batch := b,
                    sent := (if length b > 0 then sent d @ [b] else sent d),
                    worker_exited := True\<rparr>)"

fun observe_worker :: "select_case list \<Rightarrow> ObserveDestination \<Rightarrow> ObserveDestination" where
  "observe_worker [] d = d"
| "observe_worker (c # cs) d = observe_worker cs (observe_worker_step c d)"

datatype panic = CloseOfClosedChannel | MakeSliceCapOutOfRange | NonPositiveInterval

text \<open>
  Before its loop the worker runs \<open>make([]*Entry, 0, BatchSize)\<close> and
  \<open>time.NewTicker(FlushInterval)\<close>: the first panics for a negative capacity, the second
  for an interval that is not positive, and a panic in the goroutine ends the program.
  The loop is reached when \<open>observe_worker_start\<close> is \<open>None\<close>. (The worker of the HTTP
  transport starts with a nil slice and \<open>time.NewTimer\<close>, which do not panic.)
\<close>

definition observe_worker_start :: "ObserveConfig \<Rightarrow> panic option" where
  "observe_worker_start c =
     (if BatchSize c < 0 then Some MakeSliceCapOutOfRange
      else if sint (FlushInterval c) \<le> 0 then Some NonPositiveInterval
      else None)"

text \<open>
  \<open>ObserveDestination.Close\<close>: \<open>close(o.done)\<close> panics on a channel that is closed already;
  else \<open>o.wg.Wait()\<close> returns once the worker has taken the \<open>done\<close> case and returned.
  (Receive and timer cases that the worker takes between the two act as they do before
  the call; they are steps of \<open>observe_worker\<close> before it.)
\<close>

definition observe_Close :: "ObserveDestination \<Rightarrow> panic + ObserveDestination" where
  "observe_Close d =
     (if done_closed d then Inl CloseOfClosedChannel
      else Inr (observe_worker_step DoneClosed (d\<lparr>done_closed := True\<rparr>)))"

section \<open>Events and the HTTP transport (package statly)\<close>

text \<open>
  \<open>Event\<close>. \<open>type Level string\<close>; the timestamp is a \<open>time.Time\<close> (nanoseconds since the
  epoch); the nested structs (exception values, user, breadcrumbs, request) are kept as
  the JSON values they are marshalled to, a \<open>nil\<close> pointer as \<open>None\<close>.
\<close>

record Event =
  EventID :: string
  EventTimestamp :: int
  EventLevel :: string
  Platform :: string
  EventMessage :: string
  Exception :: "value list"
  Contexts :: "(string \<times> value) list"
  EventTags :: "(string \<times> string) list"
  Extra :: "(string \<times> value) list"
  User :: "value option"
  Breadcrumbs :: "value list"
  SDK :: "string \<times> string"
  EventEnvironment :: string
  EventRelease :: string
  ServerName :: string
  Request :: "value option"

definition Version :: string where
  "Version = ''0.1.0''"

text \<open>
  \<open>json.Marshal\<close> of an \<open>*Event\<close>, field by field in the order of the struct, by the
  struct tags: a field tagged \<open>omitempty\<close> is left out when it is the empty string, an
  empty slice or map, or a nil pointer. \<open>Time.MarshalJSON\<close> writes a quoted RFC 3339
  string; the formatting is the argument \<open>rfc3339\<close>.
\<close>

definition omit_str :: "string \<Rightarrow> string \<Rightarrow> (string \<times> value) list" where
  "omit_str k v = (if v = [] then [] else [(k, VStr v)])"

definition omit_list :: "string \<Rightarrow> value list \<Rightarrow> (string \<times> value) list" where
  "omit_list k v = (if v = [] then [] else [(k, VList v)])"

definition omit_map :: "string \<Rightarrow> (string \<times> value) list \<Rightarrow> (string \<times> value) list" where
  "omit_map k v = (if v = [] then [] else [(k, VMap v)])"

definition omit_ptr :: "string \<Rightarrow> value option \<Rightarrow> (string \<times> value) list" where
  "omit_ptr k v = (case v of None \<Rightarrow> [] | Some x \<Rightarrow> [(k, x)])"

definition EventJSON :: "(int \<Rightarrow> string) \<Rightarrow> Event \<Rightarrow> (string \<times> value) list" where
  "EventJSON rfc3339 e =
     [(''event_id'', VStr (EventID e)),
      (''timestamp'', VStr (rfc3339 (EventTimestamp e))),
      (''level'', VStr (EventLevel e)),
      (''platform'', VStr (Platform e))] @
     omit_str ''message'' (EventMessage e) @
     omit_list ''exception'' (Exception e) @
     omit_map ''contexts'' (Contexts e) @
     omit_map ''tags'' (map (\<lambda>(k, v). (k, VStr v)) (EventTags e)) @
     omit_map ''extra'' (Extra e) @
     omit_ptr ''user'' (User e) @
     omit_list ''breadcrumbs'' (Breadcrumbs e) @
     [(''sdk'', VMap [(''name'', VStr (fst (SDK e))), (''version'', VStr (snd (SDK e)))])] @
     omit_str ''environment'' (EventEnvironment e) @
     omit_str ''release'' (EventRelease e) @
     omit_str ''server_name'' (ServerName e) @
     omit_ptr ''request'' (Request e)"

text \<open>The request body of \<open>HTTPTransport.sendBatch\<close>: \<open>requestBody{Events: batch}\<close>.\<close>

definition eventsPayload :: "(int \<Rightarrow> string) \<Rightarrow> Event list \<Rightarrow> value" where
  "eventsPayload rfc3339 b = VMap [(''events'', VList (map (\<lambda>e. VMap (EventJSON rfc3339 e)) b))]"

text \<open>\<open>TransportOptions\<close>; a \<open>time.Duration\<close> is an \<open>int64\<close> of nanoseconds.\<close>

record TransportOptions =
  DSN :: string
  Timeout :: "64 word"
  MaxRetries :: int
  RetryDelay :: "64 word"
  TransportBatchSize :: int
  FlushPeriod :: "64 word"
  Debug :: bool

text \<open>
  \<open>HTTPTransport\<close>, with the worker's local \<open>batch\<close>, whether the worker has returned, and
  the batches handed to \<open>sendBatch\<close> so far, as for the Observe destination. The type of
  the queued items is a parameter; the client instantiates it with \<open>Event\<close>.
\<close>

record 'e HTTPTransport =
  t_options :: TransportOptions
  t_dsn :: string
  t_endpoint :: string
  t_queue :: "'e list"
  t_queue_cap :: nat
  t_done_closed :: bool
  t_batch :: "'e list"
  t_worker_exited :: bool
  t_sent :: "'e list list"

definition parseDSN :: "(string \<Rightarrow> (string \<times> string) option) \<Rightarrow> string \<Rightarrow> string" where
  "parseDSN urlParse d =
     (case urlParse d of
        None \<Rightarrow> ''https://statly.live/api/v1/observe/ingest''
      | Some (scheme, host) \<Rightarrow> scheme @ ''://'' @ host @ ''/api/v1/observe/ingest'')"

definition NewHTTPTransport ::
  "(string \<Rightarrow> (string \<times> string) option) \<Rightarrow> TransportOptions \<Rightarrow> 'e HTTPTransport" where
  "NewHTTPTransport urlParse opts =
     (let o1 = (if Timeout opts = 0 then opts\<lparr>Timeout := 30000000000\<rparr> else opts);
          o2 = (if MaxRetries o1 = 0 then o1\<lparr>MaxRetries := 3\<rparr> else o1);
          o3 = (if RetryDelay o2 = 0 then o2\<lparr>RetryDelay := 1000000000\<rparr> else o2);
          o4 = (if TransportBatchSize o3 = 0 then o3\<lparr>TransportBatchSize := 10\<rparr> else o3);
          o5 = (if FlushPeriod o4 = 0 then o4\<lparr>FlushPeriod := 5000000000\<rparr> else o4)
      in \<lparr>t_options = o5, t_dsn = DSN o5, t_endpoint = parseDSN urlParse (DSN o5),
          t_queue = [], t_queue_cap = 100, t_done_closed = False,
          t_batch = [], t_worker_exited = False, t_sent = []\<rparr>)"

text \<open>
  \<open>HTTPTransport.Send\<close>. The \<open>select\<close> has the send on \<open>queue\<close>, the receive on \<open>done\<close> and a
  \<open>default\<close>. When the buffer has room and \<open>done\<close> is closed both cases are ready and the
  runtime picks one; \<open>pick_done\<close> is that choice.
\<close>

definition Send :: "bool \<Rightarrow> 'e HTTPTransport \<Rightarrow> 'e \<Rightarrow> bool \<times> 'e HTTPTransport" where
  "Send pick_done t event =
     (let can_send = length (t_queue t) < t_queue_cap t;
          can_done = t_done_closed t
      in if can_send \<and> \<not> (can_done \<and> pick_done)
         then (True, t\<lparr>t_queue := t_queue t @ [event]\<rparr>)
         else if can_done then (False, t)
         else (False, t))"

text \<open>A run of \<open>Send\<close> calls by producers, with the result of each call.\<close>

fun Send_all :: "bool \<Rightarrow> 'e HTTPTransport \<Rightarrow> 'e list \<Rightarrow> bool list \<times> 'e HTTPTransport" where
  "Send_all pick_done t [] = ([], t)"
| "Send_all pick_done t (event # events) =
     (let (ok, t1) = Send pick_done t event;
          (oks, t2) = Send_all pick_done t1 events
      in (ok # oks, t2))"

text \<open>
  \<open>HTTPTransport.sendBatch\<close>. What one pass of the retry loop meets: \<open>http.NewRequest\<close>
  fails, \<open>client.Do\<close> fails (a network error or the request timeout), or a response with
  a status code arrives. \<open>peer attempt\<close> is what pass number \<open>attempt\<close> meets. The report
  lists what each pass met and each \<open>time.Sleep\<close> taken.
\<close>

datatype response = RequestError | NetworkError | Status int

datatype outcome = NothingToSend | MarshalFailed | Sent | ClientError | GaveUp

record send_report =
  outcome :: outcome
  attempts :: "response list"
  sleeps :: "64 word list"

function retry_loop ::
  "TransportOptions \<Rightarrow> (nat \<Rightarrow> response) \<Rightarrow> nat \<Rightarrow> response list \<Rightarrow> 64 word list \<Rightarrow> send_report" where
  "retry_loop opts peer attempt tr sl =
     (if int attempt < MaxRetries opts then
        let sl1 = (if attempt > 0 then sl @ [RetryDelay opts * push_bit attempt 1] else sl)
        in case peer attempt of
             RequestError \<Rightarrow> retry_loop opts peer (Suc attempt) (tr @ [RequestError]) sl1
           | NetworkError \<Rightarrow> retry_loop opts peer (Suc attempt) (tr @ [NetworkError]) sl1
           | Status code \<Rightarrow>
               if code = 200 \<or> code = 202
               then \<lparr>outcome = Sent, attempts = tr @ [Status code], sleeps = sl1\<rparr>
               else if code \<ge> 400 \<and> code < 500
               then \<lparr>outcome = ClientError, attempts = tr @ [Status code], sleeps = sl1\<rparr>
               else retry_loop opts peer (Suc attempt) (tr @ [Status code]) sl1
      else \<lparr>outcome = GaveUp, attempts = tr, sleeps = sl\<rparr>)"
  by pat_completeness auto
termination
  by (relation "measure (\<lambda>(opts, peer, attempt, tr, sl). nat (MaxRetries opts - int attempt))") auto

text \<open>
  \<open>marshal\<close> is \<open>json.Marshal\<close> on the request body, \<open>None\<close> for an error. The method
  returns nothing and assigns to no field of the transport: the transport comes back as
  it went in.
\<close>

definition sendBatch ::
  "('e list \<Rightarrow> 'd option) \<Rightarrow> (nat \<Rightarrow> response) \<Rightarrow> 'e HTTPTransport \<Rightarrow> 'e list
    \<Rightarrow> send_report \<times> 'e HTTPTransport" where
  "sendBatch marshal peer t b =
     (if length b = 0 then (\<lparr>outcome = NothingToSend, attempts = [], sleeps = []\<rparr>, t)
      else case marshal b of
        None \<Rightarrow> (\<lparr>outcome = MarshalFailed, attempts = [], sleeps = []\<rparr>, t)
      | Some data \<Rightarrow> (retry_loop (t_options t) peer 0 [] [], t))"

text \<open>
  The worker of the transport. In the \<open>done\<close> case the pending batch is sent and the
  variable \<open>batch\<close> keeps its content; the inner loop then receives until the queue is
  empty, sending and clearing the batch at the size threshold.
\<close>

fun http_drain :: "int \<Rightarrow> 'e list \<Rightarrow> 'e list \<Rightarrow> 'e list list \<Rightarrow> 'e list \<times> 'e list list" where
  "http_drain B [] b snt = (b, if length b > 0 then snt @ [b] else snt)"
| "http_drain B (event # q) b snt =
     (let b1 = b @ [event]
      in if int (length b1) \<ge> B then http_drain B q [] (snt @ [b1])
         else http_drain B q b1 snt)"

definition http_worker_step :: "select_case \<Rightarrow> 'e HTTPTransport \<Rightarrow> 'e HTTPTransport" where
  "http_worker_step c t =
     (if t_worker_exited t then t
      else case c of
        RecvQueue \<Rightarrow>
          (case t_queue t of
             [] \<Rightarrow> t
           | event # q \<Rightarrow>
               let b = t_batch t @ [event]
               in if int (length b) \<ge> TransportBatchSize (t_options t)
                  then t\<lparr>t_queue := q, t_batch := [], t_sent := t_sent t @ [b]\<rparr>
                  else t\<lparr>t_queue := q, t_batch := b\<rparr>)
      | TimerC \<Rightarrow>
          if length (t_batch t) > 0
          then t\<lparr>t_batch := [], t_sent := t_sent t @ [t_batch t]\<rparr> else t
      | DoneClosed \<Rightarrow>
          if \<not> t_done_closed t then t
          else let snt1 = (if length (t_batch t) > 0 then t_sent t @ [t_batch t] else t_sent t);
                   (b, snt2) = http_drain (TransportBatchSize (t_options t)) (t_queue t)
                                 (t_batch t) snt1
               in t\<lparr>t_queue := [], t_batch := b, t_sent := snt2, t_worker_exited := True\<rparr>)"

fun http_worker :: "select_case list \<Rightarrow> 'e HTTPTransport \<Rightarrow> 'e HTTPTransport" where
  "http_worker [] t = t"
| "http_worker (c # cs) t = http_worker cs (http_worker_step c t)"

text \<open>\<open>HTTPTransport.Close\<close>: \<open>close(t.done)\<close>, then \<open>t.wg.Wait()\<close>.\<close>

definition http_Close :: "'e HTTPTransport \<Rightarrow> panic + 'e HTTPTransport" where
  "http_Close t =
     (if t_done_closed t then Inl CloseOfClosedChannel
      else Inr (http_worker_step DoneClosed (t\<lparr>t_done_closed := True\<rparr>)))"

section \<open>The client and the package-level API (package statly)\<close>

record Options =
  opt_DSN :: string
  opt_Environment :: string
  opt_Release :: string
  opt_Debug :: bool
  opt_SampleRate :: real
  opt_MaxBreadcrumbs :: int
  opt_BeforeSend :: "(Event \<Rightarrow> Event option) option"
  opt_ServerName :: string
  opt_FlushTimeout :: "64 word"

text \<open>The part of \<open>Scope\<close> that \<open>ApplyToEvent\<close> reads; a user and a breadcrumb as JSON values.\<close>

record Scope =
  user :: "value option"
  tags :: "(string \<times> string) list"
  extra :: "(string \<times> value) list"
  contexts :: "(string \<times> value) list"
  breadcrumbs :: "value list"
  maxBreadcrumbs :: int

definition NewScope :: Scope where
  "NewScope = \<lparr>user = None, tags = [], extra = [], contexts = [], breadcrumbs = [],
     maxBreadcrumbs = 100\<rparr>"

text \<open>A loop \<open>for k, v := range m { target[k] = v }\<close>.\<close>

fun assign_all :: "('k \<times> 'v) list \<Rightarrow> ('k \<times> 'v) list \<Rightarrow> ('k \<times> 'v) list" where
  "assign_all [] target = target"
| "assign_all ((k, v) # m) target = assign_all m (AList.update k v target)"

definition ApplyToEvent :: "Scope \<Rightarrow> Event \<Rightarrow> Event" where
  "ApplyToEvent s event =
     (let e1 = (case user s of None \<Rightarrow> event | Some u \<Rightarrow> event\<lparr>User := Some u\<rparr>)
      in e1\<lparr>EventTags := assign_all (tags s) (EventTags e1),
            Extra := assign_all (extra s) (Extra e1),
            Contexts := assign_all (contexts s) (Contexts e1),
            Breadcrumbs := Breadcrumbs e1 @ breadcrumbs s\<rparr>)"

text \<open>
  \<open>Client\<close>, with the default transport. What a capture call takes from its surroundings
  is a \<open>capture_env\<close>: the value of \<open>rand.Float64()\<close>, the identifier that
  \<open>generateEventID\<close> draws, the clock, the captured stack trace, \<open>getRuntimeInfo()\<close>, and
  the choice of the transport's \<open>select\<close>.
\<close>

record Client =
  options :: Options
  transport :: "Event HTTPTransport"
  scope :: Scope

record capture_env =
  env_draw :: real
  env_event_id :: string
  env_now :: int
  env_stacktrace :: "value"
  env_runtime :: "value"
  env_pick_done :: bool

text \<open>A non-nil \<open>error\<close>: its dynamic type as \<open>%T\<close> prints it, and its \<open>Error()\<close> text.\<close>

record go_error =
  error_type :: string
  error_text :: string

definition NewEvent :: "capture_env \<Rightarrow> Event" where
  "NewEvent env = \<lparr>EventID = env_event_id env, EventTimestamp = env_now env,
     EventLevel = ''error'', Platform = ''go'', EventMessage = [], Exception = [],
     Contexts = [], EventTags = [], Extra = [], User = None, Breadcrumbs = [],
     SDK = (''statly-observe-go'', Version), EventEnvironment = [], EventRelease = [],
     ServerName = [], Request = None\<rparr>"

definition NewExceptionEvent :: "capture_env \<Rightarrow> go_error \<Rightarrow> Event" where
  "NewExceptionEvent env err =
     (NewEvent env)\<lparr>EventLevel := ''error'',
       Exception := [VMap [(''type'', VStr (error_type err)), (''value'', VStr (error_text err)),
         (''stacktrace'', env_stacktrace env),
         (''mechanism'', VMap [(''type'', VStr ''generic''), (''handled'', VBool True)])]]\<rparr>"

definition NewMessageEvent :: "capture_env \<Rightarrow> string \<Rightarrow> string \<Rightarrow> Event" where
  "NewMessageEvent env message level =
     (NewEvent env)\<lparr>EventMessage := message, EventLevel := level\<rparr>"

definition sendEvent :: "capture_env \<Rightarrow> Client \<Rightarrow> Event \<Rightarrow> string \<times> Client" where
  "sendEvent env c event =
     (case (case opt_BeforeSend (options c) of None \<Rightarrow> Some event | Some f \<Rightarrow> f event) of
        None \<Rightarrow> ([], c)
      | Some ev \<Rightarrow>
          (case Send (env_pick_done env) (transport c) ev of
             (True, t1) \<Rightarrow> (EventID ev, c\<lparr>transport := t1\<rparr>)
           | (False, t1) \<Rightarrow> ([], c\<lparr>transport := t1\<rparr>)))"

definition prepare :: "capture_env \<Rightarrow> Client \<Rightarrow> (string \<times> value) list option \<Rightarrow> Event \<Rightarrow> Event" where
  "prepare env c ctx event =
     (let e1 = event\<lparr>EventEnvironment := opt_Environment (options c),
                     EventRelease := opt_Release (options c),
                     ServerName := opt_ServerName (options c)\<rparr>;
          e2 = e1\<lparr>Contexts := AList.update ''runtime'' (env_runtime env) (Contexts e1)\<rparr>;
          e3 = (case ctx of None \<Rightarrow> e2 | Some m \<Rightarrow> e2\<lparr>Extra := assign_all m (Extra e2)\<rparr>)
      in ApplyToEvent (scope c) e3)"

definition Client_CaptureExceptionWithContext ::
  "capture_env \<Rightarrow> Client \<Rightarrow> go_error option \<Rightarrow> (string \<times> value) list option \<Rightarrow> string \<times> Client" where
  "Client_CaptureExceptionWithContext env c err ctx =
     (case err of
        None \<Rightarrow> ([], c)
      | Some e \<Rightarrow>
          if env_draw env > opt_SampleRate (options c) then ([], c)
          else sendEvent env c (prepare env c ctx (NewExceptionEvent env e)))"

definition Client_CaptureException :: "capture_env \<Rightarrow> Client \<Rightarrow> go_error option \<Rightarrow> string \<times> Client" where
  "Client_CaptureException env c err = Client_CaptureExceptionWithContext env c err None"

definition Client_CaptureMessageWithContext ::
  "capture_env \<Rightarrow> Client \<Rightarrow> string \<Rightarrow> string \<Rightarrow> (string \<times> value) list option \<Rightarrow> string \<times> Client" where
  "Client_CaptureMessageWithContext env c message level ctx =
     (if env_draw env > opt_SampleRate (options c) then ([], c)
      else sendEvent env c (prepare env c ctx (NewMessageEvent env message level)))"

definition Client_CaptureMessage :: "capture_env \<Rightarrow> Client \<Rightarrow> string \<Rightarrow> string \<Rightarrow> string \<times> Client" where
  "Client_CaptureMessage env c message level = Client_CaptureMessageWithContext env c message level None"

definition Client_Close :: "Client \<Rightarrow> panic + Client" where
  "Client_Close c =
     (case http_Close (transport c) of
        Inl p \<Rightarrow> Inl p
      | Inr t1 \<Rightarrow> Inr (c\<lparr>transport := t1\<rparr>))"

text \<open>\<open>NewClient\<close> without a custom transport; \<open>hostname\<close> is what \<open>getHostname()\<close> returns.\<close>

datatype init_error = ErrMissingDSN | ErrAlreadyInitialized

definition NewClient ::
  "(string \<Rightarrow> (string \<times> string) option) \<Rightarrow> string \<Rightarrow> Options \<Rightarrow> init_error + Client" where
  "NewClient urlParse hostname opts =
     (if opt_DSN opts = [] then Inl ErrMissingDSN
      else
        let o1 = (if opt_SampleRate opts = 0 then opts\<lparr>opt_SampleRate := 1\<rparr> else opts);
            o2 = (if opt_MaxBreadcrumbs o1 = 0 then o1\<lparr>opt_MaxBreadcrumbs := 100\<rparr> else o1);
            o3 = (if opt_FlushTimeout o2 = 0 then o2\<lparr>opt_FlushTimeout := 5000000000\<rparr> else o2);
            o4 = (if opt_ServerName o3 = [] then o3\<lparr>opt_ServerName := hostname\<rparr> else o3)
        in Inr \<lparr>options = o4,
                transport = NewHTTPTransport urlParse
                  \<lparr>DSN = opt_DSN o4, Timeout = 30000000000, MaxRetries = 0, RetryDelay = 0,
                   TransportBatchSize = 0, FlushPeriod = 0, Debug = opt_Debug o4\<rparr>,
                scope = NewScope\<lparr>maxBreadcrumbs := opt_MaxBreadcrumbs o4\<rparr>\<rparr>)"

text \<open>
  The package-level state is the variable \<open>globalClient\<close>, \<open>None\<close> for \<open>nil\<close>. \<open>Init\<close> takes
  the values that \<open>loadDSNFromEnv\<close> and \<open>loadEnvironmentFromEnv\<close> return.
\<close>

record Globals =
  globalClient :: "Client option"

definition Init ::
  "(string \<Rightarrow> (string \<times> string) option) \<Rightarrow> string \<Rightarrow> string \<Rightarrow> string \<Rightarrow> Globals \<Rightarrow> Options
    \<Rightarrow> init_error + Globals" where
  "Init urlParse hostname envDSN envEnvironment g opts =
     (if globalClient g \<noteq> None then Inl ErrAlreadyInitialized
      else
        let o1 = (if opt_DSN opts = [] then opts\<lparr>opt_DSN := envDSN\<rparr> else opts)
        in if opt_DSN o1 = [] then Inl ErrMissingDSN
           else
             let o2 = (if opt_Environment o1 = [] then o1\<lparr>opt_Environment := envEnvironment\<rparr>
                       else o1)
             in case NewClient urlParse hostname o2 of
                  Inl e \<Rightarrow> Inl e
                | Inr client \<Rightarrow> Inr (g\<lparr>globalClient := Some client\<rparr>))"

definition CaptureException :: "capture_env \<Rightarrow> Globals \<Rightarrow> go_error option \<Rightarrow> string \<times> Globals" where
  "CaptureException env g err =
     (case globalClient g of
        None \<Rightarrow> ([], g)
      | Some client \<Rightarrow>
          (let (eid, c1) = Client_CaptureException env client err
           in (eid, g\<lparr>globalClient := Some c1\<rparr>)))"

definition CaptureExceptionWithContext ::
  "capture_env \<Rightarrow> Globals \<Rightarrow> go_error option \<Rightarrow> (string \<times> value) list option \<Rightarrow> string \<times> Globals" where
  "CaptureExceptionWithContext env g err ctx =
     (case globalClient g of
        None \<Rightarrow> ([], g)
      | Some client \<Rightarrow>
          (let (eid, c1) = Client_CaptureExceptionWithContext env client err ctx
           in (eid, g\<lparr>globalClient := Some c1\<rparr>)))"

definition CaptureMessage :: "capture_env \<Rightarrow> Globals \<Rightarrow> string \<Rightarrow> string \<Rightarrow> string \<times> Globals" where
  "CaptureMessage env g message level =
     (case globalClient g of
        None \<Rightarrow> ([], g)
      | Some client \<Rightarrow>
          (let (eid, c1) = Client_CaptureMessage env client message level
           in (eid, g\<lparr>globalClient := Some c1\<rparr>)))"

definition CaptureMessageWithContext ::
  "capture_env \<Rightarrow> Globals \<Rightarrow> string \<Rightarrow> string \<Rightarrow> (string \<times> value) list option \<Rightarrow> string \<times> Globals" where
  "CaptureMessageWithContext env g message level ctx =
     (case globalClient g of
        None \<Rightarrow> ([], g)
      | Some client \<Rightarrow>
          (let (eid, c1) = Client_CaptureMessageWithContext env client message level ctx
           in (eid, g\<lparr>globalClient := Some c1\<rparr>)))"

text \<open>
  The package-level \<open>Close\<close>. A panic of the client's \<open>Close\<close> passes through it before
  \<open>globalClient\<close> is reset.
\<close>

definition Close :: "Globals \<Rightarrow> panic + Globals" where
  "Close g =
     (case globalClient g of
        None \<Rightarrow> Inr g
      | Some client \<Rightarrow>
          (case Client_Close client of
             Inl p \<Rightarrow> Inl p
           | Inr c1 \<Rightarrow> Inr (g\<lparr>globalClient := None\<rparr>)))"

section \<open>Configurations used in the examples\<close>

definition scrubber_ssn_awsKey :: Scrubber where
  "scrubber_ssn_awsKey = NewScrubber scrubPatterns_ssn_awsKey
     (Some \<lparr>Enabled = True, Patterns = [''ssn'', ''awsKey''], CustomRegexps = [], Allowlist = []\<rparr>)"

definition scrubber_allow_empty :: Scrubber where
  "scrubber_allow_empty = NewScrubber scrubPatterns_ssn_awsKey
     (Some \<lparr>Enabled = True, Patterns = [''ssn'', ''awsKey''], CustomRegexps = [],
            Allowlist = [[], ''Cookie'']\<rparr>)"

text \<open>A log entry with the given level and timestamp and no optional field populated.\<close>

definition sample_entry :: "Level \<Rightarrow> int \<Rightarrow> Entry" where
  "sample_entry l t = \<lparr>Level = l, Message = ''m'', Timestamp = t, LoggerName = [],
     Context = None, Tags = None, Source = None, TraceID = [], SpanID = [], SessionID = [],
     Environment = [], Release = [], SDKName = ''statly-observe-go'', SDKVersion = ''0.2.0''\<rparr>"

definition no_url :: "string \<Rightarrow> (string \<times> string) option" where
  "no_url d = None"

definition transport_options :: "int \<Rightarrow> TransportOptions" where
  "transport_options B = \<lparr>DSN = ''https://key@statly.live/org'', Timeout = 0, MaxRetries = 0,
     RetryDelay = 0, TransportBatchSize = B, FlushPeriod = 0, Debug = False\<rparr>"

definition observe_config :: "int \<Rightarrow> ObserveConfig" where
  "observe_config B = \<lparr>ObserveEnabled = True, BatchSize = B, FlushInterval = 5000000000,
     Sampling = Map.empty\<rparr>"

definition transport0 :: "nat HTTPTransport" where
  "transport0 = NewHTTPTransport no_url (transport_options 4)"

definition destination0 :: ObserveDestination where
  "destination0 = NewObserveDestination no_url ''https://key@statly.live/org''
     (Some (observe_config 4))"

definition sample_entries :: "Level \<Rightarrow> nat \<Rightarrow> Entry list" where
  "sample_entries l n = map (\<lambda>k. sample_entry l (int k)) [0..<n]"

definition sample_writes :: "Level \<Rightarrow> real \<Rightarrow> nat \<Rightarrow> (Entry \<times> real) list" where
  "sample_writes l r n = map (\<lambda>e. (e, r)) (sample_entries l n)"

text \<open>
  What makes the retry loop of \<open>sendBatch\<close> go on to its next pass: an error of
  \<open>http.NewRequest\<close> or of \<open>client.Do\<close>, and a status that is neither 200 or 202 nor in
  the range 400 to 499.
\<close>

definition retried :: "response \<Rightarrow> bool" where
  "retried r =
     (case r of
        RequestError \<Rightarrow> True
      | NetworkError \<Rightarrow> True
      | Status code \<Rightarrow> \<not> (code = 200 \<or> code = 202) \<and> \<not> (code \<ge> 400 \<and> code < 500))"

text \<open>The sleep before pass number \<open>attempt\<close>: \<open>RetryDelay * time.Duration(1<<attempt)\<close>.\<close>

definition backoff :: "TransportOptions \<Rightarrow> nat \<Rightarrow> 64 word" where
  "backoff opts attempt = RetryDelay opts * push_bit attempt 1"

text \<open>Peers: 503 twice and then 200; always 404; always 500.\<close>

definition peer_503_503_200 :: "nat \<Rightarrow> response" where
  "peer_503_503_200 n = (if n < 2 then Status 503 else Status 200)"

definition peer_404 :: "nat \<Rightarrow> response" where
  "peer_404 n = Status 404"

definition peer_500 :: "nat \<Rightarrow> response" where
  "peer_500 n = Status 500"

definition options0 :: Options where
  "options0 = \<lparr>opt_DSN = ''https://key@statly.live/org'', opt_Environment = ''production'',
     opt_Release = ''1.0.0'', opt_Debug = False, opt_SampleRate = 0, opt_MaxBreadcrumbs = 0,
     opt_BeforeSend = None, opt_ServerName = [], opt_FlushTimeout = 0\<rparr>"

definition env0 :: capture_env where
  "env0 = \<lparr>env_draw = 1 / 2, env_event_id = ''0123456789abcdef0123456789abcdef'',
     env_now = 1700000000123456789, env_stacktrace = VMap [(''frames'', VList [])],
     env_runtime = VMap [(''name'', VStr ''Go'')], env_pick_done = False\<rparr>"

definition error0 :: go_error where
  "error0 = \<lparr>error_type = ''*errors.errorString'', error_text = ''boom''\<rparr>"

section \<open>The example configurations, evaluated\<close>

lemma transport0_simps:
  "t_queue transport0 = []" "\<not> t_done_closed transport0" "t_queue_cap transport0 = 100"
  "t_batch transport0 = []" "\<not> t_worker_exited transport0" "t_sent transport0 = []"
  "TransportBatchSize (t_options transport0) = 4" "MaxRetries (t_options transport0) = 3"
  "RetryDelay (t_options transport0) = 1000000000"
  by (simp_all add: transport0_def NewHTTPTransport_def transport_options_def Let_def)

lemma destination0_simps:
  "queue destination0 = []" "\<not> done_closed destination0" "queue_cap destination0 = 1000"
  "batch destination0 = []" "\<not> worker_exited destination0" "sent destination0 = []"
  "BatchSize (config destination0) = 4" "ObserveEnabled (config destination0)"
  "sampling destination0 = defaultSampling"
  "observe_worker_start (config destination0) = None"
  by (simp_all add: destination0_def NewObserveDestination_def observe_config_def Let_def
      observe_worker_start_def)

lemma rate_of_default:
  "rate_of defaultSampling LevelTrace = 0.01" "rate_of defaultSampling LevelInfo = 0.5"
  "rate_of defaultSampling LevelError = 1"
  by (simp_all add: rate_of_def defaultSampling_def LevelTrace_def LevelDebug_def LevelInfo_def
      LevelWarn_def LevelError_def LevelFatal_def LevelAudit_def)

lemma sample_entries_simps:
  "length (sample_entries l n) = n"
  "list_all (\<lambda>e. Level e = l) (sample_entries l n)"
  "map fst (sample_writes l r n) = sample_entries l n"
  "length (sample_writes l r n) = n"
  by (simp_all add: sample_entries_def sample_writes_def list_all_iff sample_entry_def comp_def)

lemma sample_writes_admitted:
  "r \<le> rate_of (sampling d) l
   \<Longrightarrow> list_all (\<lambda>(e, r). Level e = LevelAudit \<or> r \<le> rate_of (sampling d) (Level e))
         (sample_writes l r n)"
  by (simp add: sample_entries_def sample_writes_def list_all_iff sample_entry_def)

section \<open>Properties of the scrubber\<close>

lemma empty_key_not_sensitive: "[] \<notin> SensitiveKeys"
  by (simp add: SensitiveKeys_def)

lemma ToLower_Nil: "ToLower [] = []"
  by (simp add: ToLower_def)


lemma scrubValue_sensitive:
  assumes "ToLower key \<in> SensitiveKeys" and "ToLower key \<notin> allowlist s"
  shows "scrubValue s v key = VStr REDACTED"
proof -
  from assms(1) have "key \<noteq> []"
    using empty_key_not_sensitive ToLower_Nil by metis
  with assms show ?thesis
    by (simp add: isSensitiveKey_def)
qed


lemma map_of_scrubEntries:
  "map_of (scrubEntries s m) k = map_option (\<lambda>x. scrubValue s x k) (map_of m k)"
  by (induction m) (auto simp del: scrubValue.simps)

lemma scrubItems_length: "length (scrubItems s xs) = length xs"
  by (induction xs) auto

lemma scrubItems_nth:
  "i < length xs \<Longrightarrow> scrubItems s xs ! i = scrubValue s (xs ! i) []"
proof (induction xs arbitrary: i)
  case Nil
  then show ?case by simp
next
  case (Cons x xs)
  then show ?case by (cases i) (simp_all del: scrubValue.simps)
qed

lemma plain_key_empty: "plain_key s []"
  by (simp add: plain_key_def)

lemma scrubValue_plain_map:
  "plain_key s c \<Longrightarrow> scrubValue s (VMap m) c = VMap (scrubEntries s m)"
  by (auto simp: plain_key_def)

lemma scrubValue_plain_list:
  "plain_key s c \<Longrightarrow> scrubValue s (VList xs) c = VList (scrubItems s xs)"
  by (auto simp: plain_key_def)

lemma sub_scrubValue_sensitive:
  assumes "ToLower key \<in> SensitiveKeys" and "ToLower key \<notin> allowlist s"
  shows "plain_key s c \<Longrightarrow> plain_path s path \<Longrightarrow> sub v (path @ [Key key]) = Some x
    \<Longrightarrow> sub (scrubValue s v c) (path @ [Key key]) = Some (VStr REDACTED)"
proof (induction path arbitrary: v c)
  case Nil
  from Nil.prems(3) obtain m where v: "v = VMap m" and m: "map_of m key = Some x"
    by (cases v) (auto split: option.splits)
  have "scrubValue s x key = VStr REDACTED"
    using assms by (rule scrubValue_sensitive)
  then show ?case
    using Nil.prems(1) v m
    by (simp only: append_Nil scrubValue_plain_map sub.simps map_of_scrubEntries
        option.map option.case)
next
  case (Cons st path)
  show ?case
  proof (cases st)
    case (Key k)
    from Cons.prems(3) Key obtain m y where v: "v = VMap m" and m: "map_of m k = Some y"
      and y: "sub y (path @ [Key key]) = Some x"
      by (cases v) (auto split: option.splits)
    have pk: "plain_key s k" and pp: "plain_path s path"
      using Cons.prems(2) Key by simp_all
    have "sub (scrubValue s y k) (path @ [Key key]) = Some (VStr REDACTED)"
      using pk pp y by (rule Cons.IH)
    then show ?thesis
      using Cons.prems(1) v m Key
      by (simp only: append_Cons scrubValue_plain_map sub.simps map_of_scrubEntries
          option.map option.case)
  next
    case (Index i)
    from Cons.prems(3) Index obtain xs where v: "v = VList xs" and i: "i < length xs"
      and y: "sub (xs ! i) (path @ [Key key]) = Some x"
      by (cases v) (auto split: if_splits)
    have pp: "plain_path s path"
      using Cons.prems(2) Index by simp
    have "sub (scrubValue s (xs ! i) []) (path @ [Key key]) = Some (VStr REDACTED)"
      using plain_key_empty pp y by (rule Cons.IH)
    then show ?thesis
      using Cons.prems(1) v i Index
      by (simp only: append_Cons scrubValue_plain_list sub.simps scrubItems_length
          scrubItems_nth if_True)
  qed
qed

text \<open>
  C5, as stated, fails. An entry with a sensitive key that is not in the allowlist keeps
  its value when it lies below an allowlisted key, since \<open>scrubValue\<close> returns the value
  of an allowlisted key as a whole without looking into it; and it keeps its value inside
  a container of another static type (here a \<open>map[string]string\<close>), which the type switch
  takes to its \<open>default\<close> branch.
\<close>

theorem sensitive_key_below_allowlisted_counterexample:
  "ToLower ''password'' \<in> SensitiveKeys
   \<and> ToLower ''password'' \<notin> allowlist scrubber_allow_empty
   \<and> Scrub scrubber_allow_empty
         (VMap [(''cookie'', VMap [(''password'', VStr ''hunter2'')])])
       = VMap [(''cookie'', VMap [(''password'', VStr ''hunter2'')])]
   \<and> ToLower ''password'' \<notin> allowlist scrubber_ssn_awsKey
   \<and> Scrub scrubber_ssn_awsKey
         (VMap [(''headers'', VStrMap [(''password'', ''hunter2'')])])
       = VMap [(''headers'', VStrMap [(''password'', ''hunter2'')])]"
  by code_simp

text \<open>
  C5, amended. Take a value of any shape that is a map entry under a key whose lower-case
  form is in the sensitive-key set and not in the allowlist, at any depth: the path to it
  goes down through entries of \<open>map[string]interface{}\<close> values and elements of
  \<open>[]interface{}\<close> values, and no key of an enclosing entry on that path is allowlisted
  or sensitive. Then \<open>scrubValue\<close> returns the marker \<open>[REDACTED]\<close> for it whatever it
  holds (nothing inside it is visited), and the scrubbed value has the marker at that
  path.
\<close>

theorem scrub_redacts_reached_sensitive_entry:
  assumes "ToLower key \<in> SensitiveKeys" and "ToLower key \<notin> allowlist s"
    and "plain_path s path" and "sub v (path @ [Key key]) = Some x"
  shows "scrubValue s y key = VStr REDACTED
    \<and> sub (scrubValue s v []) (path @ [Key key]) = Some (VStr REDACTED)
    \<and> (enabled s \<longrightarrow> sub (Scrub s v) (path @ [Key key]) = Some (VStr REDACTED))"
proof -
  have a: "scrubValue s y key = VStr REDACTED"
    using assms(1,2) by (rule scrubValue_sensitive)
  have b: "sub (scrubValue s v []) (path @ [Key key]) = Some (VStr REDACTED)"
    using assms(1,2) plain_key_empty assms(3,4) by (rule sub_scrubValue_sensitive)
  have "sub (Scrub s v) (path @ [Key key]) = Some (VStr REDACTED)" if "enabled s"
    using that b by (simp add: Scrub_def)
  with a b show ?thesis by blast
qed

text \<open>
  An instance two levels down, through a map and a list: the map under \<open>Password\<close>,
  itself holding a sensitive key and a list, becomes the marker; the entries beside it
  are scrubbed on their own.
\<close>

theorem scrub_redacts_reached_sensitive_entry_witness:
  "ToLower ''Password'' \<in> SensitiveKeys \<and> ToLower ''Password'' \<notin> allowlist scrubber_ssn_awsKey
   \<and> plain_path scrubber_ssn_awsKey [Key ''request'', Index 1]
   \<and> sub (VMap [(''user'', VStr ''kim''),
                 (''request'', VList [VNum 7,
                    VMap [(''Password'', VMap [(''token'', VStr ''t''), (''n'', VList [VNum 1, VNil])]),
                          (''note'', VStr ''id 123-45-6789'')]])])
         ([Key ''request'', Index 1] @ [Key ''Password''])
       = Some (VMap [(''token'', VStr ''t''), (''n'', VList [VNum 1, VNil])])
   \<and> enabled scrubber_ssn_awsKey
   \<and> sub (Scrub scrubber_ssn_awsKey
           (VMap [(''user'', VStr ''kim''),
                 (''request'', VList [VNum 7,
                    VMap [(''Password'', VMap [(''token'', VStr ''t''), (''n'', VList [VNum 1, VNil])]),
                          (''note'', VStr ''id 123-45-6789'')]])]))
         ([Key ''request'', Index 1] @ [Key ''Password''])
       = Some (VStr ''[REDACTED]'')
   \<and> Scrub scrubber_ssn_awsKey
           (VMap [(''user'', VStr ''kim''),
                 (''request'', VList [VNum 7,
                    VMap [(''Password'', VMap [(''token'', VStr ''t''), (''n'', VList [VNum 1, VNil])]),
                          (''note'', VStr ''id 123-45-6789'')]])])
       = VMap [(''user'', VStr ''kim''),
               (''request'', VList [VNum 7,
                  VMap [(''Password'', VStr ''[REDACTED]''), (''note'', VStr ''id [REDACTED]'')]])]"
proof -
  let ?v = "VMap [(''user'', VStr ''kim''),
                 (''request'', VList [VNum 7,
                    VMap [(''Password'', VMap [(''token'', VStr ''t''), (''n'', VList [VNum 1, VNil])]),
                          (''note'', VStr ''id 123-45-6789'')]])]"
  have h1: "ToLower ''Password'' \<in> SensitiveKeys"
    by (simp add: SensitiveKeys_def ToLower_def lower_char_def)
  have h2: "ToLower ''Password'' \<notin> allowlist scrubber_ssn_awsKey"
    by (simp add: scrubber_ssn_awsKey_def NewScrubber_def)
  have h3: "plain_path scrubber_ssn_awsKey [Key ''request'', Index 1]"
    by code_simp
  have h4: "sub ?v ([Key ''request'', Index 1] @ [Key ''Password''])
       = Some (VMap [(''token'', VStr ''t''), (''n'', VList [VNum 1, VNil])])"
    by simp
  have h5: "enabled scrubber_ssn_awsKey"
    by (simp add: scrubber_ssn_awsKey_def NewScrubber_def)
  have r: "sub (Scrub scrubber_ssn_awsKey ?v) ([Key ''request'', Index 1] @ [Key ''Password''])
       = Some (VStr ''[REDACTED]'')"
    using scrub_redacts_reached_sensitive_entry [OF h1 h2 h3 h4] h5
    by (simp add: REDACTED_def)
  have e: "Scrub scrubber_ssn_awsKey ?v
       = VMap [(''user'', VStr ''kim''),
               (''request'', VList [VNum 7,
                  VMap [(''Password'', VStr ''[REDACTED]''), (''note'', VStr ''id [REDACTED]'')]])]"
    by code_simp
  show ?thesis by (intro conjI h1 h2 h3 h4 h5 r e)
qed




section \<open>Properties of the built-in expressions and of \<open>ScrubString\<close>\<close>






















section \<open>Properties of the bounded queue\<close>

lemma Send_full:
  "length (t_queue t) = t_queue_cap t \<Longrightarrow> Send pick t e = (False, t)"
  by (simp add: Send_def)

lemma Send_room:
  "length (t_queue t) < t_queue_cap t \<Longrightarrow> \<not> t_done_closed t
   \<Longrightarrow> Send pick t e = (True, t\<lparr>t_queue := t_queue t @ [e]\<rparr>)"
  by (simp add: Send_def)

lemma Send_all_fits:
  "\<not> t_done_closed t \<Longrightarrow> length (t_queue t) + length xs \<le> t_queue_cap t
   \<Longrightarrow> Send_all pick t xs = (replicate (length xs) True, t\<lparr>t_queue := t_queue t @ xs\<rparr>)"
proof (induction xs arbitrary: t)
  case Nil
  then show ?case by simp
next
  case (Cons x xs)
  have s: "Send pick t x = (True, t\<lparr>t_queue := t_queue t @ [x]\<rparr>)"
    using Cons.prems by (intro Send_room) auto
  have "Send_all pick (t\<lparr>t_queue := t_queue t @ [x]\<rparr>) xs
      = (replicate (length xs) True,
         (t\<lparr>t_queue := t_queue t @ [x]\<rparr>)\<lparr>t_queue := t_queue (t\<lparr>t_queue := t_queue t @ [x]\<rparr>) @ xs\<rparr>)"
    using Cons.prems by (intro Cons.IH) auto
  with s show ?case by simp
qed

lemma Send_all_full:
  "length (t_queue t) = t_queue_cap t
   \<Longrightarrow> Send_all pick t xs = (replicate (length xs) False, t)"
  by (induction xs) (auto simp: Send_full)

lemma Send_all_append:
  "Send_all pick t (xs @ ys) =
     (fst (Send_all pick t xs) @ fst (Send_all pick (snd (Send_all pick t xs)) ys),
      snd (Send_all pick (snd (Send_all pick t xs)) ys))"
  by (induction xs arbitrary: t) (auto simp: split_def Let_def)

lemma Send_all_overflow:
  assumes "t_queue t = []" and "\<not> t_done_closed t" and "length xs = t_queue_cap t + n"
  shows "Send_all pick t xs
     = (replicate (t_queue_cap t) True @ replicate n False,
        t\<lparr>t_queue := take (t_queue_cap t) xs\<rparr>)"
proof -
  let ?K = "t_queue_cap t"
  have xs: "xs = take ?K xs @ drop ?K xs" by simp
  have a: "Send_all pick t (take ?K xs)
     = (replicate ?K True, t\<lparr>t_queue := take ?K xs\<rparr>)"
    using Send_all_fits [of t "take ?K xs" pick] assms by simp
  have b: "Send_all pick (t\<lparr>t_queue := take ?K xs\<rparr>) (drop ?K xs)
     = (replicate n False, t\<lparr>t_queue := take ?K xs\<rparr>)"
    using Send_all_full [of "t\<lparr>t_queue := take ?K xs\<rparr>" pick "drop ?K xs"] assms by simp
  have "Send_all pick t xs = Send_all pick t (take ?K xs @ drop ?K xs)"
    by simp
  also have "\<dots> = (replicate ?K True @ replicate n False, t\<lparr>t_queue := take ?K xs\<rparr>)"
    by (simp only: Send_all_append a b fst_conv snd_conv)
  finally show ?thesis .
qed

lemma Write_full:
  "length (queue d) = queue_cap d \<Longrightarrow> Write d entry r = d"
  by (simp add: Write_def observe_enqueue_def)

lemma Write_admitted:
  "ObserveEnabled (config d) \<Longrightarrow> Level entry = LevelAudit \<or> r \<le> rate_of (sampling d) (Level entry)
   \<Longrightarrow> Write d entry r = observe_enqueue d entry"
  by (auto simp: Write_def)

lemma Write_all_fits:
  "ObserveEnabled (config d)
   \<Longrightarrow> list_all (\<lambda>(e, r). Level e = LevelAudit \<or> r \<le> rate_of (sampling d) (Level e)) ws
   \<Longrightarrow> length (queue d) + length ws \<le> queue_cap d
   \<Longrightarrow> Write_all d ws = d\<lparr>queue := queue d @ map fst ws\<rparr>"
proof (induction ws arbitrary: d)
  case Nil
  then show ?case by simp
next
  case (Cons w ws)
  obtain e r where w: "w = (e, r)" by (cases w)
  have s: "Write d e r = d\<lparr>queue := queue d @ [e]\<rparr>"
    using Cons.prems w by (simp add: Write_admitted observe_enqueue_def)
  have "Write_all (d\<lparr>queue := queue d @ [e]\<rparr>) ws
      = (d\<lparr>queue := queue d @ [e]\<rparr>)\<lparr>queue := queue (d\<lparr>queue := queue d @ [e]\<rparr>) @ map fst ws\<rparr>"
    using Cons.prems w by (intro Cons.IH) auto
  with s w show ?case by simp
qed

lemma Write_all_full:
  "length (queue d) = queue_cap d \<Longrightarrow> Write_all d ws = d"
  by (induction ws) (auto simp: Write_full)

lemma Write_all_append:
  "Write_all d (xs @ ys) = Write_all (Write_all d xs) ys"
  by (induction xs arbitrary: d) auto

lemma Write_all_overflow:
  assumes "queue d = []" and "ObserveEnabled (config d)"
    and "list_all (\<lambda>(e, r). Level e = LevelAudit \<or> r \<le> rate_of (sampling d) (Level e)) ws"
    and "length ws = queue_cap d + n"
  shows "Write_all d ws = d\<lparr>queue := take (queue_cap d) (map fst ws)\<rparr>"
proof -
  let ?K = "queue_cap d"
  have ws: "ws = take ?K ws @ drop ?K ws" by simp
  have l: "list_all (\<lambda>(e, r). Level e = LevelAudit \<or> r \<le> rate_of (sampling d) (Level e)) (take ?K ws)"
    using assms(3) by (auto simp: list_all_iff dest: in_set_takeD)
  have a: "Write_all d (take ?K ws) = d\<lparr>queue := take ?K (map fst ws)\<rparr>"
    using Write_all_fits [of d "take ?K ws"] assms l by (simp add: take_map)
  have b: "Write_all (d\<lparr>queue := take ?K (map fst ws)\<rparr>) (drop ?K ws)
     = d\<lparr>queue := take ?K (map fst ws)\<rparr>"
    using assms by (intro Write_all_full) simp
  have "Write_all d ws = Write_all d (take ?K ws @ drop ?K ws)"
    by simp
  also have "\<dots> = d\<lparr>queue := take ?K (map fst ws)\<rparr>"
    by (simp only: Write_all_append a b)
  finally show ?thesis .
qed

text \<open>
  C2. An enqueue on a buffer that holds as many records as its capacity leaves the
  buffer as it is and returns at once (\<open>Send\<close> reports \<open>false\<close>): the incoming record is
  dropped. Hence, from an empty buffer of capacity K and with no worker step in between,
  K + 5 enqueues leave exactly the first K records in the buffer, in arrival order; the
  first K calls succeed and the last 5 are dropped. For the Observe destination the
  enqueues are those \<open>Write\<close> calls that pass the sampling check.
\<close>

theorem full_queue_drops_newest:
  "(length (t_queue t) = t_queue_cap t \<longrightarrow> Send pick t event = (False, t))
   \<and> (length (queue d) = queue_cap d \<longrightarrow> Write d entry r = d)
   \<and> (t_queue t = [] \<and> \<not> t_done_closed t \<and> length events = t_queue_cap t + 5
        \<longrightarrow> Send_all pick t events
            = (replicate (t_queue_cap t) True @ replicate 5 False,
               t\<lparr>t_queue := take (t_queue_cap t) events\<rparr>))
   \<and> (queue d = [] \<and> ObserveEnabled (config d)
        \<and> list_all (\<lambda>(e, r). Level e = LevelAudit \<or> r \<le> rate_of (sampling d) (Level e)) ws
        \<and> length ws = queue_cap d + 5
        \<longrightarrow> Write_all d ws = d\<lparr>queue := take (queue_cap d) (map fst ws)\<rparr>)"
  using Send_full [of t pick event] Write_full [of d entry r]
    Send_all_overflow [of t events 5 pick] Write_all_overflow [of d ws 5]
  by blast

text \<open>
  Instances with the capacities the constructors fix: 100 for the HTTP transport (105
  calls of \<open>Send\<close>) and 1000 for the Observe destination (1005 calls of \<open>Write\<close> at level
  info with a draw below the default rate 0.5), and one more enqueue on each full buffer.
\<close>

theorem full_queue_drops_newest_witness:
  "length (t_queue (transport0\<lparr>t_queue := [0..<100]\<rparr>)) = t_queue_cap (transport0\<lparr>t_queue := [0..<100]\<rparr>)
   \<and> Send False (transport0\<lparr>t_queue := [0..<100]\<rparr>) 100 = (False, transport0\<lparr>t_queue := [0..<100]\<rparr>)
   \<and> t_queue transport0 = [] \<and> \<not> t_done_closed transport0
   \<and> length [0..<105] = t_queue_cap transport0 + 5
   \<and> Send_all False transport0 [0..<105]
       = (replicate 100 True @ replicate 5 False, transport0\<lparr>t_queue := [0..<100]\<rparr>)
   \<and> queue destination0 = [] \<and> ObserveEnabled (config destination0)
   \<and> list_all (\<lambda>(e, r). Level e = LevelAudit \<or> r \<le> rate_of (sampling destination0) (Level e))
        (map (\<lambda>n. (sample_entry LevelInfo (int n), 1 / 4)) [0..<1005])
   \<and> length (map (\<lambda>n. (sample_entry LevelInfo (int n), 1 / 4 :: real)) [0..<1005])
       = queue_cap destination0 + 5
   \<and> Write_all destination0 (map (\<lambda>n. (sample_entry LevelInfo (int n), 1 / 4)) [0..<1005])
       = destination0\<lparr>queue := map (\<lambda>n. sample_entry LevelInfo (int n)) [0..<1000]\<rparr>
   \<and> Write (destination0\<lparr>queue := map (\<lambda>n. sample_entry LevelInfo (int n)) [0..<1000]\<rparr>)
        (sample_entry LevelAudit 1000) 0
       = destination0\<lparr>queue := map (\<lambda>n. sample_entry LevelInfo (int n)) [0..<1000]\<rparr>"
proof -
  let ?t = "transport0\<lparr>t_queue := [0..<100]\<rparr>"
  let ?ws = "map (\<lambda>n. (sample_entry LevelInfo (int n), 1 / 4 :: real)) [0..<1005]"
  let ?d = "destination0\<lparr>queue := map (\<lambda>n. sample_entry LevelInfo (int n)) [0..<1000]\<rparr>"
  have h1: "length (t_queue ?t) = t_queue_cap ?t"
    by (simp add: transport0_simps)
  have h2: "t_queue transport0 = [] \<and> \<not> t_done_closed transport0
      \<and> length [0..<105] = t_queue_cap transport0 + 5"
    by (simp add: transport0_simps)
  have h3: "list_all (\<lambda>(e, r). Level e = LevelAudit \<or> r \<le> rate_of (sampling destination0) (Level e)) ?ws"
    by (simp add: list_all_iff destination0_simps sample_entry_def rate_of_default)
  have h4: "queue destination0 = [] \<and> ObserveEnabled (config destination0)
      \<and> length ?ws = queue_cap destination0 + 5"
    by (simp add: destination0_simps)
  have h5: "length (queue ?d) = queue_cap ?d"
    by (simp add: destination0_simps)
  note inst = full_queue_drops_newest [of ?t False 100 ?d "sample_entry LevelAudit 1000" 0]
    full_queue_drops_newest [of transport0 False 0 destination0 "sample_entry LevelAudit 1000" 0
      "[0..<105]" ?ws]
  have c1: "Send False ?t 100 = (False, ?t)"
    using inst(1) h1 by blast
  have c2: "Write ?d (sample_entry LevelAudit 1000) 0 = ?d"
    using inst(1) h5 by blast
  have c3: "Send_all False transport0 [0..<105]
       = (replicate 100 True @ replicate 5 False, ?t)"
    using inst(2) h2 by (simp add: transport0_simps)
  have c4: "Write_all destination0 ?ws = ?d"
    using inst(2) h3 h4 by (simp add: destination0_simps take_map)
  show ?thesis
    using h1 h2 h3 h4 c1 c2 c3 c4 by blast
qed

lemma Write_all_samples:
  "Write_all destination0 (sample_writes LevelError 0 11)
     = destination0\<lparr>queue := sample_entries LevelError 11\<rparr>"
  using Write_all_fits [of destination0 "sample_writes LevelError 0 11"]
    sample_writes_admitted [of 0 destination0 LevelError 11]
  by (simp add: destination0_simps rate_of_default sample_entries_simps)

section \<open>Properties of the workers\<close>

subsection \<open>HTTP worker\<close>

lemma http_worker_append:
  "http_worker (cs @ ds) t = http_worker ds (http_worker cs t)"
  by (induction cs arbitrary: t) auto

lemma http_recv_below:
  "\<not> t_worker_exited t \<Longrightarrow> n \<le> length (t_queue t)
   \<Longrightarrow> int (length (t_batch t) + n) < TransportBatchSize (t_options t)
   \<Longrightarrow> http_worker (replicate n RecvQueue) t
       = t\<lparr>t_queue := drop n (t_queue t), t_batch := t_batch t @ take n (t_queue t)\<rparr>"
proof (induction n arbitrary: t)
  case 0
  then show ?case by simp
next
  case (Suc n)
  then obtain e q where q: "t_queue t = e # q"
    by (cases "t_queue t") auto
  let ?t1 = "t\<lparr>t_queue := q, t_batch := t_batch t @ [e]\<rparr>"
  have s: "http_worker_step RecvQueue t = ?t1"
    using Suc.prems q by (simp add: http_worker_step_def Let_def)
  have "http_worker (replicate n RecvQueue) ?t1
      = ?t1\<lparr>t_queue := drop n (t_queue ?t1), t_batch := t_batch ?t1 @ take n (t_queue ?t1)\<rparr>"
    using Suc.prems q by (intro Suc.IH) auto
  with s q show ?case by simp
qed

lemma http_recv_flush:
  assumes "\<not> t_worker_exited t" and "t_batch t = []"
    and "TransportBatchSize (t_options t) = int B" and "0 < B" and "B \<le> length (t_queue t)"
  shows "http_worker (replicate B RecvQueue) t
       = t\<lparr>t_queue := drop B (t_queue t), t_batch := [],
           t_sent := t_sent t @ [take B (t_queue t)]\<rparr>"
proof -
  obtain m where m: "B = Suc m" using assms(4) by (cases B) auto
  let ?t1 = "t\<lparr>t_queue := drop m (t_queue t), t_batch := take m (t_queue t)\<rparr>"
  have a: "http_worker (replicate m RecvQueue) t = ?t1"
    using http_recv_below [of t m] assms m by simp
  have d: "drop m (t_queue t) = t_queue t ! m # drop (Suc m) (t_queue t)"
    using assms(5) m by (simp add: Cons_nth_drop_Suc)
  have tk: "take m (t_queue t) @ [t_queue t ! m] = take (Suc m) (t_queue t)"
    using assms(5) m by (simp add: take_Suc_conv_app_nth)
  have b: "http_worker_step RecvQueue ?t1
      = t\<lparr>t_queue := drop (Suc m) (t_queue t), t_batch := [],
          t_sent := t_sent t @ [take (Suc m) (t_queue t)]\<rparr>"
    using assms m d tk by (simp add: http_worker_step_def Let_def)
  have "http_worker (replicate (Suc m) RecvQueue) t
      = http_worker [RecvQueue] (http_worker (replicate m RecvQueue) t)"
    using http_worker_append [of "replicate m RecvQueue" "[RecvQueue]" t]
    by (simp add: replicate_append_same)
  then show ?thesis using a b m by simp
qed

lemma http_drain_below:
  "int (length b + length q) < B
   \<Longrightarrow> http_drain B q b snt = (b @ q, if b @ q \<noteq> [] then snt @ [b @ q] else snt)"
  by (induction q arbitrary: b) (auto simp: Let_def)

lemma http_drain_flush:
  "0 < B \<Longrightarrow> B \<le> length q
   \<Longrightarrow> http_drain (int B) q [] snt = http_drain (int B) (drop B q) [] (snt @ [take B q])"
proof -
  assume B: "0 < B" "B \<le> length q"
  have g: "length b < B \<Longrightarrow> B - length b \<le> length q
     \<Longrightarrow> http_drain (int B) q b snt
         = http_drain (int B) (drop (B - length b) q) [] (snt @ [b @ take (B - length b) q])"
    for b q
  proof (induction q arbitrary: b)
    case Nil
    then show ?case by simp
  next
    case (Cons e q)
    show ?case
    proof (cases "Suc (length b) = B")
      case True
      then have "B - length b = Suc 0" by simp
      with True show ?thesis by (simp add: Let_def)
    next
      case False
      with Cons.prems have lt: "length (b @ [e]) < B" by simp
      have le: "B - length (b @ [e]) \<le> length q" using Cons.prems by simp
      have "http_drain (int B) (e # q) b snt = http_drain (int B) q (b @ [e]) snt"
        using lt by (simp add: Let_def)
      also have "\<dots> = http_drain (int B) (drop (B - length (b @ [e])) q) []
          (snt @ [(b @ [e]) @ take (B - length (b @ [e])) q])"
        using lt le by (rule Cons.IH)
      also have "\<dots> = http_drain (int B) (drop (B - length b) (e # q)) []
          (snt @ [b @ take (B - length b) (e # q)])"
        using lt by (simp add: drop_Cons' take_Cons')
      finally show ?thesis .
    qed
  qed
  from g [of "[]" q] B show ?thesis by simp
qed

subsection \<open>Observe worker\<close>

lemma observe_worker_append:
  "observe_worker (cs @ ds) d = observe_worker ds (observe_worker cs d)"
  by (induction cs arbitrary: d) auto

lemma observe_recv_below:
  "\<not> worker_exited d \<Longrightarrow> n \<le> length (queue d)
   \<Longrightarrow> int (length (batch d) + n) < BatchSize (config d)
   \<Longrightarrow> observe_worker (replicate n RecvQueue) d
       = d\<lparr>queue := drop n (queue d), batch := batch d @ take n (queue d)\<rparr>"
proof (induction n arbitrary: d)
  case 0
  then show ?case by simp
next
  case (Suc n)
  then obtain e q where q: "queue d = e # q"
    by (cases "queue d") auto
  let ?d1 = "d\<lparr>queue := q, batch := batch d @ [e]\<rparr>"
  have s: "observe_worker_step RecvQueue d = ?d1"
    using Suc.prems q by (simp add: observe_worker_step_def Let_def)
  have "observe_worker (replicate n RecvQueue) ?d1
      = ?d1\<lparr>queue := drop n (queue ?d1), batch := batch ?d1 @ take n (queue ?d1)\<rparr>"
    using Suc.prems q by (intro Suc.IH) auto
  with s q show ?case by simp
qed

lemma observe_recv_flush:
  assumes "\<not> worker_exited d" and "batch d = []"
    and "BatchSize (config d) = int B" and "0 < B" and "B \<le> length (queue d)"
  shows "observe_worker (replicate B RecvQueue) d
       = d\<lparr>queue := drop B (queue d), batch := [], sent := sent d @ [take B (queue d)]\<rparr>"
proof -
  obtain m where m: "B = Suc m" using assms(4) by (cases B) auto
  let ?d1 = "d\<lparr>queue := drop m (queue d), batch := take m (queue d)\<rparr>"
  have a: "observe_worker (replicate m RecvQueue) d = ?d1"
    using observe_recv_below [of d m] assms m by simp
  have dq: "drop m (queue d) = queue d ! m # drop (Suc m) (queue d)"
    using assms(5) m by (simp add: Cons_nth_drop_Suc)
  have tk: "take m (queue d) @ [queue d ! m] = take (Suc m) (queue d)"
    using assms(5) m by (simp add: take_Suc_conv_app_nth)
  have b: "observe_worker_step RecvQueue ?d1
      = d\<lparr>queue := drop (Suc m) (queue d), batch := [],
          sent := sent d @ [take (Suc m) (queue d)]\<rparr>"
    using assms m dq tk by (simp add: observe_worker_step_def Let_def)
  have "observe_worker (replicate (Suc m) RecvQueue) d
      = observe_worker [RecvQueue] (observe_worker (replicate m RecvQueue) d)"
    using observe_worker_append [of "replicate m RecvQueue" "[RecvQueue]" d]
    by (simp add: replicate_append_same)
  then show ?thesis using a b m by simp
qed

lemma observe_drain_all: "observe_drain q b = b @ q"
  by (induction q arbitrary: b) auto

lemma http_running_batches:
  assumes "\<not> t_worker_exited t" and "t_batch t = []" and "t_queue t = xs"
    and "TransportBatchSize (t_options t) = int B" and "3 \<le> B" and "length xs = 2 * B + 3"
  shows "http_worker (replicate (2 * B + 3) RecvQueue @ [TimerC]) t
       = t\<lparr>t_queue := [], t_batch := [],
           t_sent := t_sent t @ [take B xs, take B (drop B xs), drop (2 * B) xs]\<rparr>"
proof -
  let ?t1 = "t\<lparr>t_queue := drop B xs, t_batch := [], t_sent := t_sent t @ [take B xs]\<rparr>"
  let ?t2 = "t\<lparr>t_queue := drop (2 * B) xs, t_batch := [],
      t_sent := t_sent t @ [take B xs, take B (drop B xs)]\<rparr>"
  let ?t4 = "t\<lparr>t_queue := [], t_batch := [],
      t_sent := t_sent t @ [take B xs, take B (drop B xs), drop (2 * B) xs]\<rparr>"
  have r: "replicate (2 * B + 3) RecvQueue @ [TimerC]
      = replicate B RecvQueue @ replicate B RecvQueue @ replicate 3 RecvQueue @ [TimerC]"
    by (simp only: mult_2 replicate_add append_assoc)
  have s1: "http_worker (replicate B RecvQueue) t = ?t1"
    using http_recv_flush [of t B] assms by simp
  have s2: "http_worker (replicate B RecvQueue) ?t1 = ?t2"
    using http_recv_flush [of ?t1 B] assms by (simp add: mult_2 [symmetric])
  have l3: "length (drop (2 * B) xs) = 3" using assms by simp
  have s3: "http_worker (replicate 3 RecvQueue @ [TimerC]) ?t2 = ?t4"
  proof (cases "B = 3")
    case True
    have "http_worker (replicate 3 RecvQueue) ?t2 = ?t4"
      using http_recv_flush [of ?t2 3] assms True l3 by simp
    then show ?thesis
      using assms by (simp add: http_worker_append http_worker_step_def)
  next
    case False
    with assms have "3 < B" by simp
    then have "http_worker (replicate 3 RecvQueue) ?t2
        = t\<lparr>t_queue := [], t_batch := drop (2 * B) xs,
            t_sent := t_sent t @ [take B xs, take B (drop B xs)]\<rparr>"
      using http_recv_below [of ?t2 3] assms l3 by simp
    then show ?thesis
      using assms l3 by (simp add: http_worker_append http_worker_step_def)
  qed
  show ?thesis
    unfolding r http_worker_append s1 s2 s3 [unfolded http_worker_append] by (rule refl)
qed

lemma observe_running_batches:
  assumes "\<not> worker_exited d" and "batch d = []" and "queue d = xs"
    and "BatchSize (config d) = int B" and "3 \<le> B" and "length xs = 2 * B + 3"
  shows "observe_worker (replicate (2 * B + 3) RecvQueue @ [TimerC]) d
       = d\<lparr>queue := [], batch := [],
           sent := sent d @ [take B xs, take B (drop B xs), drop (2 * B) xs]\<rparr>"
proof -
  let ?d1 = "d\<lparr>queue := drop B xs, batch := [], sent := sent d @ [take B xs]\<rparr>"
  let ?d2 = "d\<lparr>queue := drop (2 * B) xs, batch := [],
      sent := sent d @ [take B xs, take B (drop B xs)]\<rparr>"
  let ?d4 = "d\<lparr>queue := [], batch := [],
      sent := sent d @ [take B xs, take B (drop B xs), drop (2 * B) xs]\<rparr>"
  have r: "replicate (2 * B + 3) RecvQueue @ [TimerC]
      = replicate B RecvQueue @ replicate B RecvQueue @ replicate 3 RecvQueue @ [TimerC]"
    by (simp only: mult_2 replicate_add append_assoc)
  have s1: "observe_worker (replicate B RecvQueue) d = ?d1"
    using observe_recv_flush [of d B] assms by simp
  have s2: "observe_worker (replicate B RecvQueue) ?d1 = ?d2"
    using observe_recv_flush [of ?d1 B] assms by (simp add: mult_2 [symmetric])
  have l3: "length (drop (2 * B) xs) = 3" using assms by simp
  have s3: "observe_worker (replicate 3 RecvQueue @ [TimerC]) ?d2 = ?d4"
  proof (cases "B = 3")
    case True
    have "observe_worker (replicate 3 RecvQueue) ?d2 = ?d4"
      using observe_recv_flush [of ?d2 3] assms True l3 by simp
    then show ?thesis
      using assms by (simp add: observe_worker_append observe_worker_step_def)
  next
    case False
    with assms have "3 < B" by simp
    then have "observe_worker (replicate 3 RecvQueue) ?d2
        = d\<lparr>queue := [], batch := drop (2 * B) xs,
            sent := sent d @ [take B xs, take B (drop B xs)]\<rparr>"
      using observe_recv_below [of ?d2 3] assms l3 by simp
    then show ?thesis
      using assms l3 by (simp add: observe_worker_append observe_worker_step_def)
  qed
  show ?thesis
    unfolding r observe_worker_append s1 s2 s3 [unfolded observe_worker_append] by (rule refl)
qed

lemma http_drain_batches:
  assumes "3 \<le> B" and "length xs = 2 * B + 3"
  shows "snd (http_drain (int B) xs [] snt)
       = snt @ [take B xs, take B (drop B xs), drop (2 * B) xs]"
proof -
  have l3: "length (drop (2 * B) xs) = 3" using assms by simp
  then have ne: "drop (2 * B) xs \<noteq> []" by auto
  have "http_drain (int B) xs [] snt = http_drain (int B) (drop B xs) [] (snt @ [take B xs])"
    using http_drain_flush [of B xs snt] assms by simp
  also have "\<dots> = http_drain (int B) (drop (2 * B) xs) []
      (snt @ [take B xs, take B (drop B xs)])"
    using http_drain_flush [of B "drop B xs" "snt @ [take B xs]"] assms
    by (simp add: mult_2 [symmetric])
  finally have two: "http_drain (int B) xs [] snt = http_drain (int B) (drop (2 * B) xs) []
      (snt @ [take B xs, take B (drop B xs)])" .
  show ?thesis
  proof (cases "B = 3")
    case True
    have "http_drain (int B) (drop (2 * B) xs) [] (snt @ [take B xs, take B (drop B xs)])
        = http_drain (int B) [] [] (snt @ [take B xs, take B (drop B xs), drop (2 * B) xs])"
      using http_drain_flush [of B "drop (2 * B) xs" "snt @ [take B xs, take B (drop B xs)]"]
        True l3 by simp
    with two show ?thesis by simp
  next
    case False
    with assms have "3 < B" by simp
    then have "http_drain (int B) (drop (2 * B) xs) [] (snt @ [take B xs, take B (drop B xs)])
        = (drop (2 * B) xs, snt @ [take B xs, take B (drop B xs), drop (2 * B) xs])"
      using http_drain_below [of "[]" "drop (2 * B) xs" "int B"] l3 ne by simp
    with two show ?thesis by simp
  qed
qed

lemma http_Close_drains:
  assumes "\<not> t_done_closed t" and "\<not> t_worker_exited t" and "t_batch t = []"
  shows "\<exists>t1. http_Close t = Inr t1 \<and> t_worker_exited t1 \<and> t_queue t1 = []
       \<and> t_sent t1 = snd (http_drain (TransportBatchSize (t_options t)) (t_queue t) [] (t_sent t))"
  using assms by (simp add: http_Close_def http_worker_step_def split_def Let_def)

lemma observe_Close_drains:
  assumes "\<not> done_closed d" and "\<not> worker_exited d"
  shows "observe_Close d
       = Inr (d\<lparr>done_closed := True, queue := [], batch := batch d @ queue d,
               sent := (if batch d @ queue d \<noteq> [] then sent d @ [batch d @ queue d] else sent d),
               worker_exited := True\<rparr>)"
  using assms by (simp add: observe_Close_def observe_worker_step_def observe_drain_all Let_def)

text \<open>
  In the \<open>done\<close> case of the HTTP worker the pending batch is sent and kept; with an empty
  queue the inner loop sends it a second time.
\<close>

lemma http_Close_sends_pending_batch_twice:
  assumes "\<not> t_done_closed t" and "\<not> t_worker_exited t" and "t_batch t \<noteq> []"
    and "t_queue t = []"
  shows "http_Close t = Inr (t\<lparr>t_done_closed := True, t_queue := [], t_batch := t_batch t,
      t_sent := t_sent t @ [t_batch t, t_batch t], t_worker_exited := True\<rparr>)"
  using assms by (simp add: http_Close_def http_worker_step_def Let_def)

text \<open>
  C6, as stated, fails. The Observe destination has batch size 4 and 2 * 4 + 3 = 11
  records in its buffer when the shutdown signal is taken. Its drain loop has no size
  check: the sender is handed one batch of 11 records, not batches of 4, 4 and 3.
\<close>

theorem drain_in_one_batch_counterexample:
  "BatchSize (config destination0) = 4
   \<and> observe_worker_start (config destination0) = None
   \<and> length (sample_entries LevelError 11) = 2 * 4 + 3
   \<and> observe_Close (Write_all destination0 (sample_writes LevelError 0 11))
       = Inr (destination0\<lparr>done_closed := True, batch := sample_entries LevelError 11,
               sent := [sample_entries LevelError 11], worker_exited := True\<rparr>)"
proof -
  have ne: "sample_entries LevelError 11 \<noteq> []"
    using sample_entries_simps(1) [of LevelError 11] by auto
  have "observe_Close (destination0\<lparr>queue := sample_entries LevelError 11\<rparr>)
       = Inr (destination0\<lparr>done_closed := True, batch := sample_entries LevelError 11,
               sent := [sample_entries LevelError 11], worker_exited := True\<rparr>)"
    using observe_Close_drains [of "destination0\<lparr>queue := sample_entries LevelError 11\<rparr>"] ne
    by (simp add: destination0_simps)
  then show ?thesis
    by (simp add: Write_all_samples destination0_simps sample_entries_simps)
qed

text \<open>
  C6, amended. Let the batch size threshold be B, at least 3, and let exactly 2B + 3
  records be buffered (for the Observe destination, with a worker that has started: a
  positive flush interval). If the running worker receives them all with no timer expiry in
  between, the sender is handed two batches of B records at the threshold and the
  remaining 3 at the next timer expiry at the latest, in arrival order (both workers).
  After the shutdown signal, the HTTP transport whose current batch is empty drains the
  buffer, sending at the same threshold B and then the final batch, and its worker
  returns: again B, B and 3. The Observe destination drains the whole buffer into its
  current batch with no send in between and sends it as one batch before its worker
  returns.
\<close>

theorem batches_B_B_3:
  assumes "3 \<le> B" and "length xs = 2 * B + 3" and "length es = 2 * B + 3"
  shows "(\<not> t_worker_exited t \<and> t_batch t = [] \<and> t_queue t = xs
           \<and> TransportBatchSize (t_options t) = int B
         \<longrightarrow> http_worker (replicate (2 * B + 3) RecvQueue @ [TimerC]) t
             = t\<lparr>t_queue := [], t_batch := [],
                 t_sent := t_sent t @ [take B xs, take B (drop B xs), drop (2 * B) xs]\<rparr>)
    \<and> (observe_worker_start (config d) = None \<and> \<not> worker_exited d \<and> batch d = []
           \<and> queue d = es \<and> BatchSize (config d) = int B
         \<longrightarrow> observe_worker (replicate (2 * B + 3) RecvQueue @ [TimerC]) d
             = d\<lparr>queue := [], batch := [],
                 sent := sent d @ [take B es, take B (drop B es), drop (2 * B) es]\<rparr>)
    \<and> (\<not> t_done_closed t \<and> \<not> t_worker_exited t \<and> t_batch t = [] \<and> t_queue t = xs
           \<and> TransportBatchSize (t_options t) = int B
         \<longrightarrow> (\<exists>t1. http_Close t = Inr t1 \<and> t_worker_exited t1 \<and> t_queue t1 = []
               \<and> t_sent t1 = t_sent t @ [take B xs, take B (drop B xs), drop (2 * B) xs]))
    \<and> (observe_worker_start (config d) = None \<and> \<not> done_closed d \<and> \<not> worker_exited d
           \<and> batch d = [] \<and> queue d = es
         \<longrightarrow> observe_Close d
             = Inr (d\<lparr>done_closed := True, queue := [], batch := es, sent := sent d @ [es],
                     worker_exited := True\<rparr>))"
proof (intro conjI impI)
  assume "\<not> t_worker_exited t \<and> t_batch t = [] \<and> t_queue t = xs
      \<and> TransportBatchSize (t_options t) = int B"
  then show "http_worker (replicate (2 * B + 3) RecvQueue @ [TimerC]) t
      = t\<lparr>t_queue := [], t_batch := [],
          t_sent := t_sent t @ [take B xs, take B (drop B xs), drop (2 * B) xs]\<rparr>"
    using http_running_batches [of t xs B] assms by blast
next
  assume "observe_worker_start (config d) = None \<and> \<not> worker_exited d \<and> batch d = []
      \<and> queue d = es \<and> BatchSize (config d) = int B"
  then show "observe_worker (replicate (2 * B + 3) RecvQueue @ [TimerC]) d
      = d\<lparr>queue := [], batch := [],
          sent := sent d @ [take B es, take B (drop B es), drop (2 * B) es]\<rparr>"
    using observe_running_batches [of d es B] assms by blast
next
  assume a: "\<not> t_done_closed t \<and> \<not> t_worker_exited t \<and> t_batch t = [] \<and> t_queue t = xs
      \<and> TransportBatchSize (t_options t) = int B"
  then show "\<exists>t1. http_Close t = Inr t1 \<and> t_worker_exited t1 \<and> t_queue t1 = []
      \<and> t_sent t1 = t_sent t @ [take B xs, take B (drop B xs), drop (2 * B) xs]"
    using http_Close_drains [of t] http_drain_batches [of B xs "t_sent t"] assms by simp
next
  assume a: "observe_worker_start (config d) = None \<and> \<not> done_closed d \<and> \<not> worker_exited d
      \<and> batch d = [] \<and> queue d = es"
  have "es \<noteq> []" using assms by auto
  with a show "observe_Close d
      = Inr (d\<lparr>done_closed := True, queue := [], batch := es, sent := sent d @ [es],
              worker_exited := True\<rparr>)"
    using observe_Close_drains [of d] by simp
qed

text \<open>
  An instance with B = 4 and 11 records, for the transport and for the destination; the
  batches are written out.
\<close>

theorem batches_B_B_3_witness:
  "(3::nat) \<le> 4 \<and> length [0..<11] = 2 * 4 + 3 \<and> length (sample_entries LevelError 11) = 2 * 4 + 3
   \<and> observe_worker_start (config destination0) = None
   \<and> http_worker (replicate 11 RecvQueue @ [TimerC]) (transport0\<lparr>t_queue := [0..<11]\<rparr>)
       = transport0\<lparr>t_queue := [], t_batch := [], t_sent := [[0..<4], [4..<8], [8..<11]]\<rparr>
   \<and> observe_worker (replicate 11 RecvQueue @ [TimerC])
         (destination0\<lparr>queue := sample_entries LevelError 11\<rparr>)
       = destination0\<lparr>queue := [], batch := [],
           sent := [take 4 (sample_entries LevelError 11),
                    take 4 (drop 4 (sample_entries LevelError 11)),
                    drop 8 (sample_entries LevelError 11)]\<rparr>
   \<and> (\<exists>t1. http_Close (transport0\<lparr>t_queue := [0..<11]\<rparr>) = Inr t1 \<and> t_worker_exited t1
         \<and> t_queue t1 = [] \<and> t_sent t1 = [[0..<4], [4..<8], [8..<11]])
   \<and> observe_Close (destination0\<lparr>queue := sample_entries LevelError 11\<rparr>)
       = Inr (destination0\<lparr>done_closed := True, queue := [],
               batch := sample_entries LevelError 11,
               sent := [sample_entries LevelError 11], worker_exited := True\<rparr>)"
proof -
  let ?t = "transport0\<lparr>t_queue := [0..<11]\<rparr>"
  let ?d = "destination0\<lparr>queue := sample_entries LevelError 11\<rparr>"
  have h1: "(3::nat) \<le> 4" by simp
  have h2: "length [0..<11] = 2 * 4 + 3" by simp
  have h3: "length (sample_entries LevelError 11) = 2 * 4 + 3"
    by (simp add: sample_entries_simps)
  note inst = batches_B_B_3 [OF h1 h2 h3, of ?t ?d]
  have a: "http_worker (replicate 11 RecvQueue @ [TimerC]) ?t
       = transport0\<lparr>t_queue := [], t_batch := [], t_sent := [[0..<4], [4..<8], [8..<11]]\<rparr>"
    using inst by (simp add: transport0_simps)
  have b: "observe_worker (replicate 11 RecvQueue @ [TimerC]) ?d
       = destination0\<lparr>queue := [], batch := [],
           sent := [take 4 (sample_entries LevelError 11),
                    take 4 (drop 4 (sample_entries LevelError 11)),
                    drop 8 (sample_entries LevelError 11)]\<rparr>"
    using inst by (simp add: destination0_simps)
  have c: "\<exists>t1. http_Close ?t = Inr t1 \<and> t_worker_exited t1
         \<and> t_queue t1 = [] \<and> t_sent t1 = [[0..<4], [4..<8], [8..<11]]"
    using inst by (simp add: transport0_simps)
  have d: "observe_Close ?d
       = Inr (destination0\<lparr>done_closed := True, queue := [],
               batch := sample_entries LevelError 11,
               sent := [sample_entries LevelError 11], worker_exited := True\<rparr>)"
    using inst by (simp add: destination0_simps)
  show ?thesis by (intro conjI h1 h2 h3 destination0_simps(10) a b c d)
qed

subsection \<open>Closing twice\<close>

lemma done_closed_Write: "done_closed (Write d e r) = done_closed d"
  unfolding Write_def observe_enqueue_def by (simp split: if_splits)

lemma done_closed_Write_all: "done_closed (Write_all d ws) = done_closed d"
proof (induction ws arbitrary: d)
  case Nil
  then show ?case by simp
next
  case (Cons w ws)
  obtain e r where w: "w = (e, r)" by (cases w)
  show ?case unfolding w Write_all.simps Cons.IH by (rule done_closed_Write)
qed

lemma done_closed_observe_worker_step: "done_closed (observe_worker_step c d) = done_closed d"
  by (simp add: observe_worker_step_def Let_def split: select_case.splits list.splits)

lemma done_closed_observe_worker: "done_closed (observe_worker cs d) = done_closed d"
  by (induction cs arbitrary: d) (simp_all add: done_closed_observe_worker_step)

lemma t_done_closed_Send: "t_done_closed (snd (Send pick t e)) = t_done_closed t"
  by (simp add: Send_def Let_def)

lemma t_done_closed_Send_all: "t_done_closed (snd (Send_all pick t es)) = t_done_closed t"
proof (induction es arbitrary: t)
  case Nil
  then show ?case by simp
next
  case (Cons e es)
  have "t_done_closed (snd (Send_all pick (snd (Send pick t e)) es)) = t_done_closed t"
    by (simp add: Cons.IH t_done_closed_Send)
  then show ?case by (simp add: split_def Let_def)
qed

lemma t_done_closed_http_worker_step: "t_done_closed (http_worker_step c t) = t_done_closed t"
  by (cases c) (auto simp: http_worker_step_def Let_def split_def split: list.splits)

lemma t_done_closed_http_worker: "t_done_closed (http_worker cs t) = t_done_closed t"
  by (induction cs arbitrary: t) (auto simp: t_done_closed_http_worker_step)

text \<open>
  C3 does not hold of the code. \<open>Close\<close> of the Observe destination and of the HTTP
  transport starts with \<open>close(done)\<close> and has no guard: on a destination that has been
  closed the statement panics (close of closed channel). Evaluated on a fresh
  destination and a fresh transport: the first \<open>Close\<close> returns with the worker gone,
  the second panics. In general \<open>done\<close> stays closed after a first \<open>Close\<close> and through
  every later write, send and worker step, and \<open>Close\<close> on any such state panics.
\<close>

theorem second_Close_panics:
  "observe_Close destination0
     = Inr (destination0\<lparr>done_closed := True, queue := [], batch := [], worker_exited := True\<rparr>)
   \<and> observe_Close (destination0\<lparr>done_closed := True, queue := [], batch := [],
        worker_exited := True\<rparr>) = Inl CloseOfClosedChannel
   \<and> http_Close transport0
     = Inr (transport0\<lparr>t_done_closed := True, t_queue := [], t_batch := [],
         t_worker_exited := True\<rparr>)
   \<and> http_Close (transport0\<lparr>t_done_closed := True, t_queue := [], t_batch := [],
        t_worker_exited := True\<rparr>) = Inl CloseOfClosedChannel
   \<and> (case observe_Close d of Inl p \<Rightarrow> done_closed d | Inr d1 \<Rightarrow> done_closed d1)
   \<and> (case http_Close t of Inl p \<Rightarrow> t_done_closed t | Inr t1 \<Rightarrow> t_done_closed t1)
   \<and> observe_Close (observe_worker cs (Write_all (d\<lparr>done_closed := True\<rparr>) ws))
       = Inl CloseOfClosedChannel
   \<and> http_Close (http_worker cs (snd (Send_all pick (t\<lparr>t_done_closed := True\<rparr>) events)))
       = Inl CloseOfClosedChannel"
proof (intro conjI)
  show "observe_Close destination0
     = Inr (destination0\<lparr>done_closed := True, queue := [], batch := [], worker_exited := True\<rparr>)"
    by (simp add: observe_Close_def observe_worker_step_def destination0_simps Let_def)
  show "observe_Close (destination0\<lparr>done_closed := True, queue := [], batch := [],
        worker_exited := True\<rparr>) = Inl CloseOfClosedChannel"
    by (simp add: observe_Close_def)
  show "http_Close transport0
     = Inr (transport0\<lparr>t_done_closed := True, t_queue := [], t_batch := [],
         t_worker_exited := True\<rparr>)"
    by (simp add: http_Close_def http_worker_step_def transport0_simps Let_def)
  show "http_Close (transport0\<lparr>t_done_closed := True, t_queue := [], t_batch := [],
        t_worker_exited := True\<rparr>) = Inl CloseOfClosedChannel"
    by (simp add: http_Close_def)
  show "case observe_Close d of Inl p \<Rightarrow> done_closed d | Inr d1 \<Rightarrow> done_closed d1"
    by (simp add: observe_Close_def done_closed_observe_worker_step)
  show "case http_Close t of Inl p \<Rightarrow> t_done_closed t | Inr t1 \<Rightarrow> t_done_closed t1"
    by (simp add: http_Close_def t_done_closed_http_worker_step)
  show "observe_Close (observe_worker cs (Write_all (d\<lparr>done_closed := True\<rparr>) ws))
       = Inl CloseOfClosedChannel"
    by (simp add: observe_Close_def done_closed_observe_worker done_closed_Write_all)
  show "http_Close (http_worker cs (snd (Send_all pick (t\<lparr>t_done_closed := True\<rparr>) events)))
       = Inl CloseOfClosedChannel"
    by (simp add: http_Close_def t_done_closed_http_worker t_done_closed_Send_all)
qed

section \<open>Properties of the sender\<close>

declare retry_loop.simps [simp del]

lemma retry_loop_skip:
  "a \<le> k \<Longrightarrow> int k \<le> MaxRetries opts \<Longrightarrow> (\<forall>j. a \<le> j \<and> j < k \<longrightarrow> retried (peer j))
   \<Longrightarrow> retry_loop opts peer a tr sl
       = retry_loop opts peer k (tr @ map peer [a..<k]) (sl @ map (backoff opts) [max 1 a..<k])"
proof (induction "k - a" arbitrary: a tr sl)
  case 0
  then show ?case by simp
next
  case (Suc n)
  then have lt: "a < k" and r: "retried (peer a)" by auto
  let ?sl1 = "if a > 0 then sl @ [backoff opts a] else sl"
  have step: "retry_loop opts peer a tr sl = retry_loop opts peer (Suc a) (tr @ [peer a]) ?sl1"
    using lt Suc.prems(2) r
    by (subst retry_loop.simps) (auto simp: retried_def backoff_def Let_def split: response.splits)
  have ih: "retry_loop opts peer (Suc a) (tr @ [peer a]) ?sl1
      = retry_loop opts peer k ((tr @ [peer a]) @ map peer [Suc a..<k])
          (?sl1 @ map (backoff opts) [max 1 (Suc a)..<k])"
    using Suc.hyps(2) Suc.prems lt by (intro Suc.hyps(1)) auto
  have l1: "(tr @ [peer a]) @ map peer [Suc a..<k] = tr @ map peer [a..<k]"
    using lt by (simp add: upt_conv_Cons)
  have l2: "?sl1 @ map (backoff opts) [max 1 (Suc a)..<k] = sl @ map (backoff opts) [max 1 a..<k]"
    using lt by (cases "a = 0") (simp_all add: upt_conv_Cons max_def)
  show ?case unfolding step ih l1 l2 by (rule refl)
qed

lemma retry_loop_from_start:
  "int k \<le> MaxRetries opts \<Longrightarrow> (\<forall>j<k. retried (peer j))
   \<Longrightarrow> retry_loop opts peer 0 [] []
       = retry_loop opts peer k (map peer [0..<k]) (map (backoff opts) [1..<k])"
  using retry_loop_skip [of 0 k opts peer "[]" "[]"] by simp

lemma retry_loop_success:
  "int k < MaxRetries opts \<Longrightarrow> peer k = Status code \<Longrightarrow> code = 200 \<or> code = 202
   \<Longrightarrow> retry_loop opts peer k tr sl
       = \<lparr>outcome = Sent, attempts = tr @ [peer k],
          sleeps = (if k > 0 then sl @ [backoff opts k] else sl)\<rparr>"
  by (subst retry_loop.simps) (auto simp: backoff_def Let_def)

lemma retry_loop_client_error:
  "int k < MaxRetries opts \<Longrightarrow> peer k = Status code \<Longrightarrow> 400 \<le> code \<Longrightarrow> code < 500
   \<Longrightarrow> retry_loop opts peer k tr sl
       = \<lparr>outcome = ClientError, attempts = tr @ [peer k],
          sleeps = (if k > 0 then sl @ [backoff opts k] else sl)\<rparr>"
  by (subst retry_loop.simps) (auto simp: backoff_def Let_def)

lemma retry_loop_exhausted:
  "MaxRetries opts \<le> int k
   \<Longrightarrow> retry_loop opts peer k tr sl = \<lparr>outcome = GaveUp, attempts = tr, sleeps = sl\<rparr>"
  by (subst retry_loop.simps) auto

lemma retry_until_success:
  assumes "int k < MaxRetries opts" and "\<forall>j<k. retried (peer j)" and "peer k = Status code"
    and "code = 200 \<or> code = 202"
  shows "retry_loop opts peer 0 [] []
       = \<lparr>outcome = Sent, attempts = map peer [0..<Suc k],
          sleeps = map (backoff opts) [1..<Suc k]\<rparr>"
proof -
  have "retry_loop opts peer 0 [] []
      = retry_loop opts peer k (map peer [0..<k]) (map (backoff opts) [1..<k])"
    using assms by (intro retry_loop_from_start) auto
  also have "\<dots> = \<lparr>outcome = Sent, attempts = map peer [0..<k] @ [peer k],
      sleeps = (if k > 0 then map (backoff opts) [1..<k] @ [backoff opts k]
                else map (backoff opts) [1..<k])\<rparr>"
    using assms by (intro retry_loop_success)
  also have "\<dots> = \<lparr>outcome = Sent, attempts = map peer [0..<Suc k],
      sleeps = map (backoff opts) [1..<Suc k]\<rparr>"
    by (cases k) simp_all
  finally show ?thesis .
qed

lemma retry_until_client_error:
  assumes "int k < MaxRetries opts" and "\<forall>j<k. retried (peer j)" and "peer k = Status code"
    and "400 \<le> code" and "code < 500"
  shows "retry_loop opts peer 0 [] []
       = \<lparr>outcome = ClientError, attempts = map peer [0..<Suc k],
          sleeps = map (backoff opts) [1..<Suc k]\<rparr>"
proof -
  have "retry_loop opts peer 0 [] []
      = retry_loop opts peer k (map peer [0..<k]) (map (backoff opts) [1..<k])"
    using assms by (intro retry_loop_from_start) auto
  also have "\<dots> = \<lparr>outcome = ClientError, attempts = map peer [0..<k] @ [peer k],
      sleeps = (if k > 0 then map (backoff opts) [1..<k] @ [backoff opts k]
                else map (backoff opts) [1..<k])\<rparr>"
    using assms by (intro retry_loop_client_error)
  also have "\<dots> = \<lparr>outcome = ClientError, attempts = map peer [0..<Suc k],
      sleeps = map (backoff opts) [1..<Suc k]\<rparr>"
    by (cases k) simp_all
  finally show ?thesis .
qed

lemma retry_until_exhausted:
  assumes "\<forall>j. int j < MaxRetries opts \<longrightarrow> retried (peer j)"
  shows "retry_loop opts peer 0 [] []
       = \<lparr>outcome = GaveUp, attempts = map peer [0..<nat (MaxRetries opts)],
          sleeps = map (backoff opts) [1..<nat (MaxRetries opts)]\<rparr>"
proof (cases "0 \<le> MaxRetries opts")
  case True
  let ?k = "nat (MaxRetries opts)"
  have "retry_loop opts peer 0 [] []
      = retry_loop opts peer ?k (map peer [0..<?k]) (map (backoff opts) [1..<?k])"
    using assms True by (intro retry_loop_from_start) auto
  also have "\<dots> = \<lparr>outcome = GaveUp, attempts = map peer [0..<?k],
      sleeps = map (backoff opts) [1..<?k]\<rparr>"
    by (intro retry_loop_exhausted) simp
  finally show ?thesis .
next
  case False
  then show ?thesis
    using retry_loop_exhausted [of opts 0 peer "[]" "[]"] by simp
qed

text \<open>
  C1. For a batch that is not empty and that marshals, \<open>sendBatch\<close> stops at the first
  pass that meets status 200 or 202 (outcome \<open>Sent\<close>) and at the first pass that meets a
  status from 400 to 499 (outcome \<open>ClientError\<close>, no further pass; a single pass when the
  first response is such a status). As long as a pass meets anything else (an error of
  the request or of the network, a 5xx or other status) the loop goes on; when all
  \<open>MaxRetries\<close> passes did, it gives the batch up (outcome \<open>GaveUp\<close>). In every case
  the transport, and with it its queue, comes back unchanged: nothing is put back or
  stored. With \<open>MaxRetries\<close> = 3 and a peer that answers 503, 503, 200 there are exactly
  three passes and the outcome is \<open>Sent\<close>; \<open>NewHTTPTransport\<close> sets \<open>MaxRetries\<close> to 3
  when the options leave it 0.
\<close>

theorem sendBatch_retry_policy:
  assumes "b \<noteq> []" and "marshal b = Some data"
  shows "(int k < MaxRetries (t_options t) \<and> (\<forall>j<k. retried (peer j)) \<and> peer k = Status code
           \<and> (code = 200 \<or> code = 202)
         \<longrightarrow> sendBatch marshal peer t b
             = (\<lparr>outcome = Sent, attempts = map peer [0..<Suc k],
                 sleeps = map (backoff (t_options t)) [1..<Suc k]\<rparr>, t))
    \<and> (int k < MaxRetries (t_options t) \<and> (\<forall>j<k. retried (peer j)) \<and> peer k = Status code
           \<and> 400 \<le> code \<and> code < 500
         \<longrightarrow> sendBatch marshal peer t b
             = (\<lparr>outcome = ClientError, attempts = map peer [0..<Suc k],
                 sleeps = map (backoff (t_options t)) [1..<Suc k]\<rparr>, t))
    \<and> (0 < MaxRetries (t_options t) \<and> peer 0 = Status code \<and> 400 \<le> code \<and> code < 500
         \<longrightarrow> sendBatch marshal peer t b
             = (\<lparr>outcome = ClientError, attempts = [Status code], sleeps = []\<rparr>, t))
    \<and> ((\<forall>j. int j < MaxRetries (t_options t) \<longrightarrow> retried (peer j))
         \<longrightarrow> sendBatch marshal peer t b
             = (\<lparr>outcome = GaveUp, attempts = map peer [0..<nat (MaxRetries (t_options t))],
                 sleeps = map (backoff (t_options t)) [1..<nat (MaxRetries (t_options t))]\<rparr>, t))
    \<and> (MaxRetries (t_options t) = 3 \<and> peer 0 = Status 503 \<and> peer 1 = Status 503
           \<and> peer 2 = Status 200
         \<longrightarrow> sendBatch marshal peer t b
             = (\<lparr>outcome = Sent, attempts = [Status 503, Status 503, Status 200],
                 sleeps = [backoff (t_options t) 1, backoff (t_options t) 2]\<rparr>, t))
    \<and> MaxRetries (t_options (NewHTTPTransport urlParse (opts\<lparr>MaxRetries := 0\<rparr>)
          :: 'e HTTPTransport)) = 3"
proof -
  have sb: "sendBatch marshal peer t b = (retry_loop (t_options t) peer 0 [] [], t)"
    using assms by (simp add: sendBatch_def)
  have c1: "sendBatch marshal peer t b
             = (\<lparr>outcome = Sent, attempts = map peer [0..<Suc k],
                 sleeps = map (backoff (t_options t)) [1..<Suc k]\<rparr>, t)"
    if "int k < MaxRetries (t_options t) \<and> (\<forall>j<k. retried (peer j)) \<and> peer k = Status code
           \<and> (code = 200 \<or> code = 202)"
    unfolding sb using that retry_until_success [of k "t_options t" peer code] by blast
  have c2: "sendBatch marshal peer t b
             = (\<lparr>outcome = ClientError, attempts = map peer [0..<Suc k],
                 sleeps = map (backoff (t_options t)) [1..<Suc k]\<rparr>, t)"
    if "int k < MaxRetries (t_options t) \<and> (\<forall>j<k. retried (peer j)) \<and> peer k = Status code
           \<and> 400 \<le> code \<and> code < 500"
    unfolding sb using that retry_until_client_error [of k "t_options t" peer code] by blast
  have c3: "sendBatch marshal peer t b
             = (\<lparr>outcome = ClientError, attempts = [Status code], sleeps = []\<rparr>, t)"
    if "0 < MaxRetries (t_options t) \<and> peer 0 = Status code \<and> 400 \<le> code \<and> code < 500"
    unfolding sb using that retry_until_client_error [of 0 "t_options t" peer code] by simp
  have c4: "sendBatch marshal peer t b
             = (\<lparr>outcome = GaveUp, attempts = map peer [0..<nat (MaxRetries (t_options t))],
                 sleeps = map (backoff (t_options t)) [1..<nat (MaxRetries (t_options t))]\<rparr>, t)"
    if "\<forall>j. int j < MaxRetries (t_options t) \<longrightarrow> retried (peer j)"
    unfolding sb using that retry_until_exhausted [of "t_options t" peer] by simp
  have c5: "sendBatch marshal peer t b
             = (\<lparr>outcome = Sent, attempts = [Status 503, Status 503, Status 200],
                 sleeps = [backoff (t_options t) 1, backoff (t_options t) 2]\<rparr>, t)"
    if h: "MaxRetries (t_options t) = 3 \<and> peer 0 = Status 503 \<and> peer 1 = Status 503
           \<and> peer 2 = Status 200"
  proof -
    have "\<forall>j<2. retried (peer j)"
      using h by (auto simp: less_2_cases_iff retried_def)
    then have "retry_loop (t_options t) peer 0 [] []
        = \<lparr>outcome = Sent, attempts = map peer [0..<Suc 2],
           sleeps = map (backoff (t_options t)) [1..<Suc 2]\<rparr>"
      using h by (intro retry_until_success [of 2 "t_options t" peer 200]) auto
    moreover have "[0..<Suc 2] = [0, 1, 2]" "[1..<Suc 2] = [1, 2]"
      by (simp_all add: upt_rec)
    ultimately show ?thesis unfolding sb using h by simp
  qed
  have c6: "MaxRetries (t_options (NewHTTPTransport urlParse (opts\<lparr>MaxRetries := 0\<rparr>)
          :: 'e HTTPTransport)) = 3"
    by (simp add: NewHTTPTransport_def Let_def)
  from c1 c2 c3 c4 c5 c6 show ?thesis by blast
qed

text \<open>
  Instances on a transport with the default options (three passes, base delay of one
  second): the peer that answers 503, 503, 200, with sleeps of 2 and 4 seconds; the peer
  that always answers 404; the peer that always answers 500.
\<close>

theorem sendBatch_retry_policy_witness:
  "[1, 2] \<noteq> ([] :: nat list) \<and> Some [1, 2] = Some [1, 2 :: nat]
   \<and> MaxRetries (t_options transport0) = 3
   \<and> peer_503_503_200 0 = Status 503 \<and> peer_503_503_200 1 = Status 503
   \<and> peer_503_503_200 2 = Status 200
   \<and> sendBatch Some peer_503_503_200 transport0 [1, 2]
       = (\<lparr>outcome = Sent, attempts = [Status 503, Status 503, Status 200],
           sleeps = [2000000000, 4000000000]\<rparr>, transport0)
   \<and> peer_404 0 = Status 404
   \<and> sendBatch Some peer_404 transport0 [1, 2]
       = (\<lparr>outcome = ClientError, attempts = [Status 404], sleeps = []\<rparr>, transport0)
   \<and> retried (peer_500 0) \<and> retried (peer_500 1) \<and> retried (peer_500 2)
   \<and> sendBatch Some peer_500 transport0 [1, 2]
       = (\<lparr>outcome = GaveUp, attempts = [Status 500, Status 500, Status 500],
           sleeps = [2000000000, 4000000000]\<rparr>, transport0)"
proof -
  have h1: "[1, 2] \<noteq> ([] :: nat list)" by simp
  have h2: "Some [1, 2] = Some [1, 2 :: nat]" by simp
  have m: "MaxRetries (t_options transport0) = 3" by (simp add: transport0_simps)
  have p: "peer_503_503_200 0 = Status 503" "peer_503_503_200 1 = Status 503"
    "peer_503_503_200 2 = Status 200" "peer_404 0 = Status 404"
    by (simp_all add: peer_503_503_200_def peer_404_def)
  have r: "retried (peer_500 j)" for j
    by (simp add: peer_500_def retried_def)
  have bo: "backoff (t_options transport0) 1 = 2000000000"
    "backoff (t_options transport0) 2 = 4000000000"
    by (simp_all add: backoff_def transport0_simps)
  have u: "[0..<nat 3] = [0, 1, 2]" "[1..<nat 3] = [1, 2]"
    by (simp_all add: upt_rec)
  note i5 = sendBatch_retry_policy
    [where b = "[1, 2 :: nat]" and marshal = Some and data = "[1, 2]" and t = transport0
      and urlParse = no_url and opts = "transport_options 4" and k = 0
      and peer = peer_503_503_200 and code = 0, OF h1 h2,
      THEN conjunct2, THEN conjunct2, THEN conjunct2, THEN conjunct2, THEN conjunct1]
  note i3 = sendBatch_retry_policy
    [where b = "[1, 2 :: nat]" and marshal = Some and data = "[1, 2]" and t = transport0
      and urlParse = no_url and opts = "transport_options 4" and k = 0
      and peer = peer_404 and code = 404, OF h1 h2,
      THEN conjunct2, THEN conjunct2, THEN conjunct1]
  note i4 = sendBatch_retry_policy
    [where b = "[1, 2 :: nat]" and marshal = Some and data = "[1, 2]" and t = transport0
      and urlParse = no_url and opts = "transport_options 4" and k = 0
      and peer = peer_500 and code = 0, OF h1 h2,
      THEN conjunct2, THEN conjunct2, THEN conjunct2, THEN conjunct1]
  have a: "sendBatch Some peer_503_503_200 transport0 [1, 2]
       = (\<lparr>outcome = Sent, attempts = [Status 503, Status 503, Status 200],
           sleeps = [2000000000, 4000000000]\<rparr>, transport0)"
    using i5 m p bo by simp
  have b: "sendBatch Some peer_404 transport0 [1, 2]
       = (\<lparr>outcome = ClientError, attempts = [Status 404], sleeps = []\<rparr>, transport0)"
    using i3 m p by simp
  have c: "sendBatch Some peer_500 transport0 [1, 2]
       = (\<lparr>outcome = GaveUp, attempts = [Status 500, Status 500, Status 500],
           sleeps = [2000000000, 4000000000]\<rparr>, transport0)"
    using i4 m r bo u by (simp add: peer_500_def)
  show ?thesis by (intro conjI h1 h2 m p a b r c)
qed

section \<open>Properties of sampling\<close>

text \<open>
  C4. A record at the audit level passes \<open>Logger.shouldLog\<close> for every minimum level,
  and \<open>Write\<close> of an enabled destination takes it to the enqueue step whatever the rate
  table and the random draw are. A record at any other level is taken to the enqueue
  step exactly when the draw is at most the rate that the table has for its level. With
  room in the buffer, reaching the enqueue step means being appended to the buffer. (The
  draw and the rates are real numbers here.)
\<close>

theorem sampling_admission:
  assumes "ObserveEnabled (config d)"
  shows "shouldLog minLevel LevelAudit
    \<and> (Level entry = LevelAudit \<longrightarrow> Write d entry r = observe_enqueue d entry)
    \<and> (Level entry \<noteq> LevelAudit
         \<longrightarrow> Write d entry r
             = (if r \<le> rate_of (sampling d) (Level entry) then observe_enqueue d entry else d))
    \<and> (length (queue d) < queue_cap d \<and> Level entry = LevelAudit
         \<longrightarrow> queue (Write d entry r) = queue d @ [entry])
    \<and> (length (queue d) < queue_cap d \<and> Level entry \<noteq> LevelAudit
         \<longrightarrow> (queue (Write d entry r) = queue d @ [entry])
             = (r \<le> rate_of (sampling d) (Level entry)))"
  using assms by (auto simp: Write_def observe_enqueue_def shouldLog_def)

text \<open>
  Instances: an audit record with an empty rate table and a draw of 0.9 is queued; a
  trace record (default rate 0.01) is queued for the draw 0.01 and dropped for 0.02.
\<close>

theorem sampling_admission_witness:
  "ObserveEnabled (config destination0)
   \<and> shouldLog LevelFatal LevelAudit
   \<and> Level (sample_entry LevelAudit 5) = LevelAudit
   \<and> length (queue destination0) < queue_cap destination0
   \<and> queue (Write (destination0\<lparr>sampling := Map.empty\<rparr>) (sample_entry LevelAudit 5) (9 / 10))
       = [sample_entry LevelAudit 5]
   \<and> Level (sample_entry LevelTrace 6) \<noteq> LevelAudit
   \<and> rate_of (sampling destination0) (Level (sample_entry LevelTrace 6)) = 1 / 100
   \<and> queue (Write destination0 (sample_entry LevelTrace 6) (1 / 100)) = [sample_entry LevelTrace 6]
   \<and> queue (Write destination0 (sample_entry LevelTrace 6) (2 / 100)) = []"
proof -
  let ?d = "destination0\<lparr>sampling := Map.empty\<rparr>"
  have h: "ObserveEnabled (config destination0)" "ObserveEnabled (config ?d)"
    by (simp_all add: destination0_simps)
  have l: "Level (sample_entry LevelAudit 5) = LevelAudit"
    "Level (sample_entry LevelTrace 6) \<noteq> LevelAudit"
    "Level (sample_entry LevelTrace 6) = LevelTrace"
    by (simp_all add: sample_entry_def LevelAudit_def LevelTrace_def)
  have q: "length (queue destination0) < queue_cap destination0"
    "length (queue ?d) < queue_cap ?d" "queue ?d = []" "queue destination0 = []"
    by (simp_all add: destination0_simps)
  have rt: "rate_of (sampling destination0) (Level (sample_entry LevelTrace 6)) = 1 / 100"
    by (simp add: l destination0_simps rate_of_default)
  have a: "queue (Write ?d (sample_entry LevelAudit 5) (9 / 10)) = [sample_entry LevelAudit 5]"
    using sampling_admission [OF h(2), of LevelFatal "sample_entry LevelAudit 5" "9 / 10"] l q
    by (simp add: observe_enqueue_def)
  have b: "queue (Write destination0 (sample_entry LevelTrace 6) (1 / 100))
      = [sample_entry LevelTrace 6]"
    using sampling_admission [OF h(1), of LevelFatal "sample_entry LevelTrace 6" "1 / 100"] l q rt
    by (simp add: observe_enqueue_def)
  have c: "queue (Write destination0 (sample_entry LevelTrace 6) (2 / 100)) = []"
    using sampling_admission [OF h(1), of LevelFatal "sample_entry LevelTrace 6" "2 / 100"] l q rt
    by (simp add: observe_enqueue_def)
  have s: "shouldLog LevelFatal LevelAudit"
    using sampling_admission [OF h(1), of LevelFatal] by blast
  show ?thesis by (intro conjI h(1) s l(1) q(1) a l(2) rt b c)
qed

section \<open>Properties of the request bodies\<close>

lemma map_of_omit_str:
  "map_of (omit_str k v) k' = (if k' = k \<and> v \<noteq> [] then Some (VStr v) else None)"
  by (simp add: omit_str_def)

lemma map_of_omit_list:
  "map_of (omit_list k v) k' = (if k' = k \<and> v \<noteq> [] then Some (VList v) else None)"
  by (simp add: omit_list_def)

lemma map_of_omit_map:
  "map_of (omit_map k v) k' = (if k' = k \<and> v \<noteq> [] then Some (VMap v) else None)"
  by (simp add: omit_map_def)

lemma map_of_omit_ptr:
  "map_of (omit_ptr k v) k' = (if k' = k then v else None)"
  by (simp add: omit_ptr_def split: option.splits)

lemmas map_of_omit = map_of_omit_str map_of_omit_list map_of_omit_map map_of_omit_ptr

lemma levelName_simps:
  "levelName LevelTrace = ''trace''" "levelName LevelDebug = ''debug''"
  "levelName LevelInfo = ''info''" "levelName LevelWarn = ''warn''"
  "levelName LevelError = ''error''" "levelName LevelFatal = ''fatal''"
  "levelName LevelAudit = ''audit''"
  by (simp_all add: levelName_def levelNames_def LevelTrace_def LevelDebug_def LevelInfo_def
      LevelWarn_def LevelError_def LevelFatal_def LevelAudit_def)

text \<open>
  C7, as stated, fails. A log entry goes to the wire through \<open>ToMap\<close>, which writes all
  fourteen keys whatever the entry holds. For an entry with no optional field populated
  the body has \<open>loggerName\<close>, \<open>traceId\<close>, \<open>spanId\<close>, \<open>sessionId\<close>, \<open>environment\<close> and
  \<open>release\<close> as empty strings and \<open>context\<close>, \<open>tags\<close> and \<open>source\<close> as \<open>null\<close>.
\<close>

theorem logs_payload_counterexample:
  "logsPayload [sample_entry LevelInfo 1700000000123456789]
     = VMap [(''logs'', VList [VMap [
         (''level'', VStr ''info''), (''message'', VStr ''m''),
         (''timestamp'', VNum 1700000000123), (''loggerName'', VStr []),
         (''context'', VNil), (''tags'', VNil), (''source'', VNil),
         (''traceId'', VStr []), (''spanId'', VStr []), (''sessionId'', VStr []),
         (''environment'', VStr []), (''release'', VStr []),
         (''sdkName'', VStr ''statly-observe-go''), (''sdkVersion'', VStr ''0.2.0'')]])]"
  by (simp add: logsPayload_def ToMap_def sample_entry_def levelName_simps UnixMilli_def
      contextJSON_def tagsJSON_def sourceJSON_def)

text \<open>
  C7, amended. The body of a log batch is an object with the single field \<open>logs\<close>, an
  array with one object per entry; each has the level as its lower-case name, the
  timestamp as epoch milliseconds, and all fourteen keys always: an optional field that
  is not populated appears as the empty string or as \<open>null\<close>. The body of an event batch
  is an object with the single field \<open>events\<close>; each event has its level string, the
  timestamp as the RFC 3339 text of \<open>time.Time\<close> (not epoch milliseconds), and each
  optional field exactly when it is populated.
\<close>

theorem request_body_fields:
  "logsPayload entries = VMap [(''logs'', VList (map (\<lambda>entry. VMap (ToMap entry)) entries))]
   \<and> map fst (ToMap entry)
       = [''level'', ''message'', ''timestamp'', ''loggerName'', ''context'', ''tags'',
          ''source'', ''traceId'', ''spanId'', ''sessionId'', ''environment'', ''release'',
          ''sdkName'', ''sdkVersion'']
   \<and> map_of (ToMap entry) ''level'' = Some (VStr (levelName (Level entry)))
   \<and> map levelName [LevelTrace, LevelDebug, LevelInfo, LevelWarn, LevelError, LevelFatal,
         LevelAudit]
       = [''trace'', ''debug'', ''info'', ''warn'', ''error'', ''fatal'', ''audit'']
   \<and> map_of (ToMap entry) ''timestamp'' = Some (VNum (Timestamp entry div 1000000))
   \<and> map_of (ToMap entry) ''loggerName'' = Some (VStr (LoggerName entry))
   \<and> map_of (ToMap entry) ''context''
       = Some (case Context entry of None \<Rightarrow> VNil | Some m \<Rightarrow> VMap m)
   \<and> map_of (ToMap (entry\<lparr>Source := None\<rparr>)) ''source'' = Some VNil
   \<and> map_of (ToMap entry) ''traceId'' = Some (VStr (TraceID entry))
   \<and> map_of (ToMap entry) ''spanId'' = Some (VStr (SpanID entry))
   \<and> map_of (ToMap entry) ''sessionId'' = Some (VStr (SessionID entry))
   \<and> map_of (ToMap entry) ''environment'' = Some (VStr (Environment entry))
   \<and> map_of (ToMap entry) ''release'' = Some (VStr (Release entry))
   \<and> eventsPayload rfc3339 events
       = VMap [(''events'', VList (map (\<lambda>e. VMap (EventJSON rfc3339 e)) events))]
   \<and> map_of (EventJSON rfc3339 e) ''level'' = Some (VStr (EventLevel e))
   \<and> map_of (EventJSON rfc3339 e) ''timestamp'' = Some (VStr (rfc3339 (EventTimestamp e)))
   \<and> map_of (EventJSON rfc3339 e) ''message''
       = (if EventMessage e = [] then None else Some (VStr (EventMessage e)))
   \<and> map_of (EventJSON rfc3339 e) ''exception''
       = (if Exception e = [] then None else Some (VList (Exception e)))
   \<and> map_of (EventJSON rfc3339 e) ''contexts''
       = (if Contexts e = [] then None else Some (VMap (Contexts e)))
   \<and> map_of (EventJSON rfc3339 e) ''tags''
       = (if EventTags e = [] then None
          else Some (VMap (map (\<lambda>(k, v). (k, VStr v)) (EventTags e))))
   \<and> map_of (EventJSON rfc3339 e) ''extra''
       = (if Extra e = [] then None else Some (VMap (Extra e)))
   \<and> map_of (EventJSON rfc3339 e) ''user'' = User e
   \<and> map_of (EventJSON rfc3339 e) ''breadcrumbs''
       = (if Breadcrumbs e = [] then None else Some (VList (Breadcrumbs e)))
   \<and> map_of (EventJSON rfc3339 e) ''environment''
       = (if EventEnvironment e = [] then None else Some (VStr (EventEnvironment e)))
   \<and> map_of (EventJSON rfc3339 e) ''release''
       = (if EventRelease e = [] then None else Some (VStr (EventRelease e)))
   \<and> map_of (EventJSON rfc3339 e) ''server_name''
       = (if ServerName e = [] then None else Some (VStr (ServerName e)))
   \<and> map_of (EventJSON rfc3339 e) ''request'' = Request e"
proof (intro conjI)
  show "logsPayload entries = VMap [(''logs'', VList (map (\<lambda>entry. VMap (ToMap entry)) entries))]"
    by (simp add: logsPayload_def)
  show "map fst (ToMap entry)
       = [''level'', ''message'', ''timestamp'', ''loggerName'', ''context'', ''tags'',
          ''source'', ''traceId'', ''spanId'', ''sessionId'', ''environment'', ''release'',
          ''sdkName'', ''sdkVersion'']"
    by (simp add: ToMap_def)
  show "map levelName [LevelTrace, LevelDebug, LevelInfo, LevelWarn, LevelError, LevelFatal,
         LevelAudit]
       = [''trace'', ''debug'', ''info'', ''warn'', ''error'', ''fatal'', ''audit'']"
    by (simp add: levelName_simps)
  show "eventsPayload rfc3339 events
       = VMap [(''events'', VList (map (\<lambda>e. VMap (EventJSON rfc3339 e)) events))]"
    by (simp add: eventsPayload_def)
qed (simp_all add: ToMap_def UnixMilli_def contextJSON_def sourceJSON_def EventJSON_def
      map_add_def map_of_omit split: option.splits)

section \<open>Properties of the package-level API\<close>

text \<open>
  C10. While \<open>globalClient\<close> is \<open>nil\<close> (before \<open>Init\<close>, and after \<open>Close\<close> has returned),
  each of the four package-level capture functions returns the empty string and leaves
  the package state as it is; each returns normally. \<open>Close\<close> in that state is a no-op
  too, and whenever \<open>Close\<close> returns, \<open>globalClient\<close> is \<open>nil\<close>.
\<close>

theorem capture_without_client:
  assumes "globalClient g = None"
  shows "CaptureException env g err = ([], g)
    \<and> CaptureExceptionWithContext env g err ctx = ([], g)
    \<and> CaptureMessage env g message level = ([], g)
    \<and> CaptureMessageWithContext env g message level ctx = ([], g)
    \<and> Close g = Inr g
    \<and> (case Close g0 of Inl p \<Rightarrow> True | Inr g1 \<Rightarrow> globalClient g1 = None)"
  using assms
  by (simp add: CaptureException_def CaptureExceptionWithContext_def CaptureMessage_def
      CaptureMessageWithContext_def Close_def split: option.splits sum.splits)

text \<open>
  Instances: the four calls before \<open>Init\<close>; and for the client that \<open>Init\<close> creates, a
  capture that returns the event identifier, and \<open>Close\<close>, which resets the state.
\<close>

lemma Init_options0:
  "Init no_url ''host'' [] [] \<lparr>globalClient = None\<rparr> options0
     = Inr \<lparr>globalClient = Some \<lparr>options = options0\<lparr>opt_SampleRate := 1,
         opt_MaxBreadcrumbs := 100, opt_FlushTimeout := 5000000000, opt_ServerName := ''host''\<rparr>,
       transport = NewHTTPTransport no_url
         \<lparr>DSN = ''https://key@statly.live/org'', Timeout = 30000000000, MaxRetries = 0,
          RetryDelay = 0, TransportBatchSize = 0, FlushPeriod = 0, Debug = False\<rparr>,
       scope = NewScope\<lparr>maxBreadcrumbs := 100\<rparr>\<rparr>\<rparr>"
  by (simp add: Init_def NewClient_def options0_def Let_def)

theorem capture_without_client_witness:
  "globalClient \<lparr>globalClient = None\<rparr> = None
   \<and> CaptureException env0 \<lparr>globalClient = None\<rparr> (Some error0) = ([], \<lparr>globalClient = None\<rparr>)
   \<and> CaptureExceptionWithContext env0 \<lparr>globalClient = None\<rparr> (Some error0)
         (Some [(''k'', VNum 1)]) = ([], \<lparr>globalClient = None\<rparr>)
   \<and> CaptureMessage env0 \<lparr>globalClient = None\<rparr> ''hello'' ''info'' = ([], \<lparr>globalClient = None\<rparr>)
   \<and> CaptureMessageWithContext env0 \<lparr>globalClient = None\<rparr> ''hello'' ''info''
         (Some [(''k'', VNum 1)]) = ([], \<lparr>globalClient = None\<rparr>)
   \<and> (\<exists>c. Init no_url ''host'' [] [] \<lparr>globalClient = None\<rparr> options0
            = Inr \<lparr>globalClient = Some c\<rparr>
          \<and> fst (CaptureMessage env0 \<lparr>globalClient = Some c\<rparr> ''hello'' ''info'')
            = ''0123456789abcdef0123456789abcdef''
          \<and> Close \<lparr>globalClient = Some c\<rparr> = Inr \<lparr>globalClient = None\<rparr>)"
proof -
  let ?g = "\<lparr>globalClient = None\<rparr>"
  have h: "globalClient ?g = None" by simp
  note inst = capture_without_client [OF h, of env0 "Some error0" "Some [(''k'', VNum 1)]"
      "''hello''" "''info''" ?g]
  let ?c = "\<lparr>options = options0\<lparr>opt_SampleRate := 1,
         opt_MaxBreadcrumbs := 100, opt_FlushTimeout := 5000000000, opt_ServerName := ''host''\<rparr>,
       transport = NewHTTPTransport no_url
         \<lparr>DSN = ''https://key@statly.live/org'', Timeout = 30000000000, MaxRetries = 0,
          RetryDelay = 0, TransportBatchSize = 0, FlushPeriod = 0, Debug = False\<rparr>,
       scope = NewScope\<lparr>maxBreadcrumbs := 100\<rparr>\<rparr>"
  have m: "fst (CaptureMessage env0 \<lparr>globalClient = Some ?c\<rparr> ''hello'' ''info'')
      = ''0123456789abcdef0123456789abcdef''"
    by (simp add: CaptureMessage_def Client_CaptureMessage_def
        Client_CaptureMessageWithContext_def sendEvent_def prepare_def ApplyToEvent_def
        NewMessageEvent_def NewEvent_def NewScope_def Send_def NewHTTPTransport_def env0_def
        options0_def Let_def split_def)
  have cl: "Close \<lparr>globalClient = Some ?c\<rparr> = Inr ?g"
    by (simp add: Close_def Client_Close_def http_Close_def http_worker_step_def
        NewHTTPTransport_def Let_def)
  have ex: "\<exists>c. Init no_url ''host'' [] [] ?g options0 = Inr \<lparr>globalClient = Some c\<rparr>
      \<and> fst (CaptureMessage env0 \<lparr>globalClient = Some c\<rparr> ''hello'' ''info'')
        = ''0123456789abcdef0123456789abcdef''
      \<and> Close \<lparr>globalClient = Some c\<rparr> = Inr ?g"
    using Init_options0 m cl by blast
  show ?thesis using inst h ex by blast
qed

end
